theory Spec2Isabelle
  imports Complex_Main "HOL-Library.AList" "HOL-Library.Option_ord"
begin

section \<open>Values that cross the I/O boundary\<close>

text \<open>
  A decoded JSON frame is a dictionary from field names to JSON values. Only the value
  shapes the order book reads are modelled: \<open>null\<close>, integers and strings. Python
  exceptions are values of the type \<open>error\<close>; a function that may raise returns
  \<open>error + 'a\<close>, with \<open>Inl\<close> for the exception. \<open>Exception n k\<close> is the plain
  \<open>Exception\<close> that \<open>update_order_book\<close> raises for a gap (the sequence received and
  the book's own); the class \<open>MissingSequencesException\<close> is declared by the source and
  raised nowhere.
\<close>

datatype jval = JNull | JInt int | JStr string

type_synonym message = "string \<rightharpoonup> jval"

datatype error =
    KeyError
  | TypeError
  | ValueError
  | IndexError
  | InvalidOperation
  | AssertionError
  | UnboundLocalError
  | MissingSequencesException
  | Exception int int
  | AlreadyInitialized
  | Disconnected

text \<open>\<open>message[key]\<close> raises KeyError on a missing key; \<open>message.get(key)\<close> gives None.\<close>

definition getitem :: "message \<Rightarrow> string \<Rightarrow> error + jval" where
  "getitem m k = (case m k of None \<Rightarrow> Inl KeyError | Some v \<Rightarrow> Inr v)"

definition get_default :: "message \<Rightarrow> string \<Rightarrow> jval" where
  "get_default m k = (case m k of None \<Rightarrow> JNull | Some v \<Rightarrow> v)"

text \<open>Python truthiness of a JSON value.\<close>

fun truthy :: "jval \<Rightarrow> bool" where
  "truthy JNull = False"
| "truthy (JInt n) = (n \<noteq> 0)"
| "truthy (JStr s) = (s \<noteq> [])"

text \<open>Sequencing of computations that may raise.\<close>

definition bindE :: "error + 'a \<Rightarrow> ('a \<Rightarrow> error + 'b) \<Rightarrow> error + 'b" where
  "bindE r f = (case r of Inl e \<Rightarrow> Inl e | Inr x \<Rightarrow> f x)"

subsection \<open>Decimal\<close>

text \<open>
  \<open>Decimal(x)\<close> is exact, so its values are rationals. The strings accepted here are
  the plain decimal numerals the venue sends: an optional sign, digits, and an optional
  fraction. Python's \<open>Decimal\<close> also reads exponents, underscores, surrounding blanks,
  \<open>NaN\<close> and \<open>Infinity\<close>; those spellings are outside this model, which answers
  \<open>InvalidOperation\<close> for them, and arithmetic is taken without the context's rounding
  to 28 significant digits.
\<close>

definition digit_of :: "char \<Rightarrow> nat option" where
  "digit_of c = map_of (zip ''0123456789'' [0, 1, 2, 3, 4, 5, 6, 7, 8, 9]) c"

fun digits_val :: "nat \<Rightarrow> string \<Rightarrow> nat option" where
  "digits_val acc [] = Some acc"
| "digits_val acc (c # cs) =
     (case digit_of c of None \<Rightarrow> None | Some d \<Rightarrow> digits_val (10 * acc + d) cs)"

definition unsigned_decimal :: "string \<Rightarrow> rat option" where
  "unsigned_decimal s =
     (let ip = takeWhile (\<lambda>c. c \<noteq> CHR ''.'') s;
          fp = drop (Suc (length ip)) s
      in if ip = [] \<and> fp = [] then None
         else (case digits_val 0 (ip @ fp) of
                 None \<Rightarrow> None
               | Some n \<Rightarrow> Some (of_nat n / 10 ^ length fp)))"

definition decimal_of_string :: "string \<Rightarrow> rat option" where
  "decimal_of_string s =
     (case s of
        [] \<Rightarrow> None
      | c # cs \<Rightarrow>
          if c = CHR ''-'' then map_option uminus (unsigned_decimal cs)
          else if c = CHR ''+'' then unsigned_decimal cs
          else unsigned_decimal s)"

definition Decimal :: "jval \<Rightarrow> error + rat" where
  "Decimal v =
     (case v of
        JNull \<Rightarrow> Inl TypeError
      | JInt n \<Rightarrow> Inr (of_int n)
      | JStr s \<Rightarrow> (case decimal_of_string s of
                     None \<Rightarrow> Inl InvalidOperation
                   | Some d \<Rightarrow> Inr d))"

subsection \<open>Timestamps\<close>

text \<open>
  \<open>datetime.strptime(s, "%Y-%m-%dT%H:%M:%S.%fZ")\<close>. The format is matched as a
  regular expression, ignoring case, that must cover the whole string: four digits for
  the year, one or two digits for the month, the day, the hour, the minute and the
  second (the day may also be a blank and a digit), one to six digits for the fraction,
  with the literal separators between them. The fields must then make a date and a
  time of day: year from 1, month 1 to 12, day within the month (February by the leap
  rule), hour up to 23, minute and second up to 59. Everything else raises ValueError;
  a value that is not a string raises TypeError. The parsed instant is only stored and
  logged, so the order keeps it as the text it was read from.
\<close>

fun split_on :: "(char \<Rightarrow> bool) \<Rightarrow> string \<Rightarrow> (string \<times> string) option" where
  "split_on P [] = None"
| "split_on P (c # cs) =
     (if P c then Some ([], cs)
      else (case split_on P cs of None \<Rightarrow> None | Some (l, r) \<Rightarrow> Some (c # l, r)))"

text \<open>
  \<open>number_in lmin lmax lo hi s\<close>: the string \<open>s\<close> is between \<open>lmin\<close> and \<open>lmax\<close> digits
  and reads as a number between \<open>lo\<close> and \<open>hi\<close>.
\<close>

definition number_in :: "nat \<Rightarrow> nat \<Rightarrow> nat \<Rightarrow> nat \<Rightarrow> string \<Rightarrow> nat option" where
  "number_in lmin lmax lo hi s =
     (if lmin \<le> length s \<and> length s \<le> lmax
      then (case digits_val 0 s of
              None \<Rightarrow> None
            | Some v \<Rightarrow> if lo \<le> v \<and> v \<le> hi then Some v else None)
      else None)"

definition day_number :: "string \<Rightarrow> nat option" where
  "day_number s =
     (case s of
        [c, d] \<Rightarrow> if c = CHR '' '' then number_in 1 1 1 9 [d] else number_in 1 2 1 31 s
      | _ \<Rightarrow> number_in 1 2 1 31 s)"

definition days_in_month :: "nat \<Rightarrow> nat \<Rightarrow> nat" where
  "days_in_month y m =
     (if m = 2 then (if y mod 4 = 0 \<and> (y mod 100 \<noteq> 0 \<or> y mod 400 = 0) then 29 else 28)
      else if m = 4 \<or> m = 6 \<or> m = 9 \<or> m = 11 then 30 else 31)"

definition time_format_ok :: "string \<Rightarrow> bool" where
  "time_format_ok s =
     (case split_on (\<lambda>c. c = CHR ''-'') s of None \<Rightarrow> False | Some (ys, s1) \<Rightarrow>
      case split_on (\<lambda>c. c = CHR ''-'') s1 of None \<Rightarrow> False | Some (ms, s2) \<Rightarrow>
      case split_on (\<lambda>c. c = CHR ''T'' \<or> c = CHR ''t'') s2 of None \<Rightarrow> False | Some (ds, s3) \<Rightarrow>
      case split_on (\<lambda>c. c = CHR '':'') s3 of None \<Rightarrow> False | Some (hs, s4) \<Rightarrow>
      case split_on (\<lambda>c. c = CHR '':'') s4 of None \<Rightarrow> False | Some (mins, s5) \<Rightarrow>
      case split_on (\<lambda>c. c = CHR ''.'') s5 of None \<Rightarrow> False | Some (secs, s6) \<Rightarrow>
      case split_on (\<lambda>c. c = CHR ''Z'' \<or> c = CHR ''z'') s6 of None \<Rightarrow> False | Some (fs, s7) \<Rightarrow>
        s7 = [] \<and>
        (case number_in 4 4 1 9999 ys of None \<Rightarrow> False | Some y \<Rightarrow>
         case number_in 1 2 1 12 ms of None \<Rightarrow> False | Some m \<Rightarrow>
         case day_number ds of None \<Rightarrow> False | Some d \<Rightarrow>
           d \<le> days_in_month y m \<and>
           number_in 1 2 0 23 hs \<noteq> None \<and> number_in 1 2 0 59 mins \<noteq> None \<and>
           number_in 1 2 0 59 secs \<noteq> None \<and> number_in 1 6 0 999999 fs \<noteq> None))"

definition strptime :: "jval \<Rightarrow> error + string" where
  "strptime v =
     (case v of
        JStr s \<Rightarrow> if time_format_ok s then Inr s else Inl ValueError
      | _ \<Rightarrow> Inl TypeError)"

subsection \<open>The sorted tree of price levels\<close>

text \<open>
  \<open>bintrees.RBTree\<close> is used as a sorted dictionary from a price to the list of the
  orders resting at it; orders are held by reference, so a level is a list of addresses
  into the book's object store. The tree is an association list read through
  \<open>map_of\<close>. A key may be None (the price of a market order): Python cannot order None
  against a Decimal, so a lookup that would compare the two raises TypeError, while a
  lookup in an empty tree compares nothing.
\<close>

type_synonym ladder = "(rat option \<times> nat list) list"

definition comparable :: "ladder \<Rightarrow> rat option \<Rightarrow> bool" where
  "comparable t k = list_all (\<lambda>kv. (fst kv = None) = (k = None)) t"

definition tree_get :: "ladder \<Rightarrow> rat option \<Rightarrow> error + nat list option" where
  "tree_get t k = (if comparable t k then Inr (map_of t k) else Inl TypeError)"

definition tree_insert :: "ladder \<Rightarrow> rat option \<Rightarrow> nat list \<Rightarrow> error + ladder" where
  "tree_insert t k v = (if comparable t k then Inr (AList.update k v t) else Inl TypeError)"

definition tree_remove :: "ladder \<Rightarrow> rat option \<Rightarrow> error + ladder" where
  "tree_remove t k =
     (if \<not> comparable t k then Inl TypeError
      else if map_of t k = None then Inl KeyError
      else Inr (AList.delete k t))"

definition min_key :: "ladder \<Rightarrow> error + rat option" where
  "min_key t = (case t of [] \<Rightarrow> Inl ValueError | kv # r \<Rightarrow> Inr (fold min (map fst r) (fst kv)))"

definition max_key :: "ladder \<Rightarrow> error + rat option" where
  "max_key t = (case t of [] \<Rightarrow> Inl ValueError | kv # r \<Rightarrow> Inr (fold max (map fst r) (fst kv)))"

section \<open>Orders and the book\<close>

datatype Side = BUY | SELL

fun Side_value :: "Side \<Rightarrow> int" where
  "Side_value BUY = 1"
| "Side_value SELL = - 1"

text \<open>\<open>Side.BUY if message['side'] == 'buy' else Side.SELL\<close>\<close>

definition side_of :: "jval \<Rightarrow> Side" where
  "side_of v = (if v = JStr ''buy'' then BUY else SELL)"

text \<open>
  A member of the plain \<open>Enum\<close> class \<open>Side\<close> never equals a string, whatever the
  string is; this is the comparison \<open>side == 'buy'\<close> made in \<open>OrderBook.match\<close>.
\<close>

definition Side_eq_str :: "Side \<Rightarrow> string \<Rightarrow> bool" where
  "Side_eq_str sd s = False"

text \<open>
  Class \<open>Order\<close>. The field \<open>size\<close> is called \<open>osize\<close> here. \<open>price\<close>, \<open>osize\<close> and
  \<open>funds\<close> may be None; \<open>funds\<close> holds a Decimal for a market order and the raw JSON
  value otherwise.
\<close>

record order =
  time :: "string option"
  sequence :: int
  product_id :: jval
  order_id :: jval
  order_type :: jval
  side :: Side
  price :: "rat option"
  osize :: "rat option"
  funds :: "(rat + jval) option"

record snapshot =
  snap_sequence :: int
  snap_bids :: "jval list list"
  snap_asks :: "jval list list"

datatype level = DEBUG | INFO | WARNING | ERROR

text \<open>
  Class \<open>OrderBook\<close>. Orders are Python objects shared between the level lists and the
  two dictionaries and mutated in place, so the book carries an object store \<open>objs\<close>:
  an order is referred to by its index in the store, and a new object is appended.
  \<open>logs\<close> records the calls of the \<open>logging\<close> module (level and message template).
\<close>

record order_book =
  book_product_id :: jval
  asks :: ladder
  bids :: ladder
  order_id_to_order :: "jval \<rightharpoonup> nat"
  order_id_to_unreflected_order :: "jval \<rightharpoonup> nat"
  pending_order_book_snapshot :: bool
  book_sequence :: int
  snapshots :: "snapshot list"
  message_queue :: "message list"
  objs :: "order list"
  logs :: "(level \<times> string) list"

definition OrderBook :: "jval \<Rightarrow> order_book" where
  "OrderBook pid =
     \<lparr> book_product_id = pid, asks = [], bids = [],
       order_id_to_order = Map.empty, order_id_to_unreflected_order = Map.empty,
       pending_order_book_snapshot = False, book_sequence = - 1,
       snapshots = [], message_queue = [], objs = [], logs = [] \<rparr>"

text \<open>
  The outcome of a method: the book after a normal return, or the exception raised
  together with the book as the exception leaves it.
\<close>

type_synonym outcome = "(error \<times> order_book) + order_book"

definition raise_in :: "order_book \<Rightarrow> error + 'a \<Rightarrow> ('a \<Rightarrow> outcome) \<Rightarrow> outcome" where
  "raise_in b r f = (case r of Inl e \<Rightarrow> Inl (e, b) | Inr x \<Rightarrow> f x)"

definition then_do :: "outcome \<Rightarrow> (order_book \<Rightarrow> outcome) \<Rightarrow> outcome" where
  "then_do r f = (case r of Inl x \<Rightarrow> Inl x | Inr b \<Rightarrow> f b)"

definition logging :: "order_book \<Rightarrow> level \<Rightarrow> string \<Rightarrow> order_book" where
  "logging b l s = b\<lparr>logs := logs b @ [(l, s)]\<rparr>"

definition set_osize :: "order_book \<Rightarrow> nat \<Rightarrow> rat option \<Rightarrow> order_book" where
  "set_osize b a v = b\<lparr>objs := (objs b)[a := (objs b ! a)\<lparr>osize := v\<rparr>]\<rparr>"

definition new_order :: "order_book \<Rightarrow> order \<Rightarrow> nat \<times> order_book" where
  "new_order b x = (length (objs b), b\<lparr>objs := objs b @ [x]\<rparr>)"

definition LARGE_THRESHOLD :: rat where
  "LARGE_THRESHOLD = 50000"

subsection \<open>Accessors of the two trees\<close>

definition get_ask :: "order_book \<Rightarrow> error + rat option" where
  "get_ask b = min_key (asks b)"

definition get_asks :: "order_book \<Rightarrow> rat option \<Rightarrow> error + nat list option" where
  "get_asks b p = tree_get (asks b) p"

definition remove_asks :: "order_book \<Rightarrow> rat option \<Rightarrow> outcome" where
  "remove_asks b p = raise_in b (tree_remove (asks b) p) (\<lambda>t. Inr (b\<lparr>asks := t\<rparr>))"

definition set_asks :: "order_book \<Rightarrow> rat option \<Rightarrow> nat list \<Rightarrow> outcome" where
  "set_asks b p l = raise_in b (tree_insert (asks b) p l) (\<lambda>t. Inr (b\<lparr>asks := t\<rparr>))"

definition get_bid :: "order_book \<Rightarrow> error + rat option" where
  "get_bid b = max_key (bids b)"

definition get_bids :: "order_book \<Rightarrow> rat option \<Rightarrow> error + nat list option" where
  "get_bids b p = tree_get (bids b) p"

definition remove_bids :: "order_book \<Rightarrow> rat option \<Rightarrow> outcome" where
  "remove_bids b p = raise_in b (tree_remove (bids b) p) (\<lambda>t. Inr (b\<lparr>bids := t\<rparr>))"

definition set_bids :: "order_book \<Rightarrow> rat option \<Rightarrow> nat list \<Rightarrow> outcome" where
  "set_bids b p l = raise_in b (tree_insert (bids b) p l) (\<lambda>t. Inr (b\<lparr>bids := t\<rparr>))"

subsection \<open>Observer hooks\<close>

text \<open>
  The hooks only log, but they format their arguments first, and a format of None or a
  read of an empty tree raises. Each hook returns the book with the log extended, or
  the exception.
\<close>

definition on_received :: "order_book \<Rightarrow> nat \<Rightarrow> jval \<Rightarrow> outcome" where
  "on_received b a otype =
     (if otype = JStr ''market'' then Inr (logging b DEBUG ''Received'')
      else if osize (objs b ! a) = None \<or> price (objs b ! a) = None then Inl (TypeError, b)
      else Inr (logging b DEBUG ''Received''))"

definition on_add :: "order_book \<Rightarrow> nat \<Rightarrow> outcome" where
  "on_add b a =
     (case osize (objs b ! a) of
        None \<Rightarrow> Inl (TypeError, b)
      | Some sz \<Rightarrow>
          (case price (objs b ! a) of
             None \<Rightarrow> Inl (TypeError, b)
           | Some p \<Rightarrow>
               let b1 = logging b DEBUG ''Added''
               in if sz * p > LARGE_THRESHOLD then Inr (logging b1 INFO ''Large order'')
                  else Inr b1))"

definition on_remove :: "order_book \<Rightarrow> nat \<Rightarrow> rat \<Rightarrow> outcome" where
  "on_remove b a remaining_size =
     (case osize (objs b ! a) of
        None \<Rightarrow> Inl (TypeError, b)
      | Some sz \<Rightarrow>
          (case price (objs b ! a) of
             None \<Rightarrow> Inl (TypeError, b)
           | Some p \<Rightarrow>
               let b1 = logging b DEBUG ''Removed''
               in if remaining_size * p > LARGE_THRESHOLD
                  then Inr (logging b1 INFO ''Large cancel'')
                  else Inr b1))"

definition on_match :: "order_book \<Rightarrow> outcome" where
  "on_match b =
     raise_in b (get_bid b) (\<lambda>kb.
     raise_in b (get_ask b) (\<lambda>ka.
       if kb = None \<or> ka = None then Inl (TypeError, b)
       else Inr (logging b INFO ''Trade'')))"

definition on_change :: "order_book \<Rightarrow> nat \<Rightarrow> outcome" where
  "on_change b a =
     raise_in b
       (if side (objs b ! a) = SELL then get_asks b (price (objs b ! a))
        else get_bids b (price (objs b ! a)))
       (\<lambda>lv. case lv of
                None \<Rightarrow> Inl (TypeError, b)
              | Some [] \<Rightarrow> Inl (UnboundLocalError, b)
              | Some (x # xs) \<Rightarrow> Inr (logging b DEBUG ''Change''))"

section \<open>The methods of OrderBook\<close>

text \<open>
  \<open>add\<close>: append the order to the level at its price on its side, creating the level if
  the tree has none; \<open>bids.append(order)\<close> changes the list inside the tree in place.
\<close>

definition add :: "order_book \<Rightarrow> nat \<Rightarrow> outcome" where
  "add b a =
     then_do
       (if side (objs b ! a) = BUY then
          raise_in b (get_bids b (price (objs b ! a))) (\<lambda>lv.
            case lv of
              None \<Rightarrow> set_bids b (price (objs b ! a)) [a]
            | Some l \<Rightarrow> Inr (b\<lparr>bids := AList.update (price (objs b ! a)) (l @ [a]) (bids b)\<rparr>))
        else
          raise_in b (get_asks b (price (objs b ! a))) (\<lambda>lv.
            case lv of
              None \<Rightarrow> set_asks b (price (objs b ! a)) [a]
            | Some l \<Rightarrow> Inr (b\<lparr>asks := AList.update (price (objs b ! a)) (l @ [a]) (asks b)\<rparr>)))
       (\<lambda>b1. on_add
                (b1\<lparr>order_id_to_order := (order_id_to_order b1)(order_id (objs b1 ! a) \<mapsto> a)\<rparr>) a)"

text \<open>
  \<open>remove\<close> (named \<open>remove_order\<close> here). The level is looked up with the side and the
  price of the message, not with those of the stored order.
\<close>

definition remove_order ::
  "order_book \<Rightarrow> jval \<Rightarrow> Side \<Rightarrow> rat \<Rightarrow> rat \<Rightarrow> outcome" where
  "remove_order b oid sd p remaining_size =
     (case order_id_to_order b oid of
        None \<Rightarrow>
          (case order_id_to_unreflected_order b oid of
             Some u \<Rightarrow>
               Inr ((logging b DEBUG ''Removing unreflected'')
                      \<lparr>order_id_to_unreflected_order :=
                         (order_id_to_unreflected_order b)(oid := None)\<rparr>)
           | None \<Rightarrow> Inr (logging b ERROR ''Trying to remove unrecognized''))
      | Some a \<Rightarrow>
          let b1 = (if sd \<noteq> side (objs b ! a)
                    then logging b ERROR ''Trying to remove order with inconsistent side''
                    else b);
              b2 = (if Some p \<noteq> price (objs b ! a)
                    then logging b1 ERROR ''Trying to remove order with inconsistent price''
                    else b1)
          in then_do
               (if sd = BUY then
                  raise_in b2 (get_bids b2 (Some p)) (\<lambda>lv.
                    case lv of
                      None \<Rightarrow> Inr b2
                    | Some l \<Rightarrow>
                        let l' = filter (\<lambda>x. order_id (objs b2 ! x) \<noteq> oid) l
                        in if length l' > 0 then set_bids b2 (Some p) l'
                           else remove_bids b2 (Some p))
                else
                  raise_in b2 (get_asks b2 (Some p)) (\<lambda>lv.
                    case lv of
                      None \<Rightarrow> Inr b2
                    | Some l \<Rightarrow>
                        let l' = filter (\<lambda>x. order_id (objs b2 ! x) \<noteq> oid) l
                        in if length l' > 0 then set_asks b2 (Some p) l'
                           else remove_asks b2 (Some p)))
               (\<lambda>b3. on_remove
                        (b3\<lparr>order_id_to_order := (order_id_to_order b3)(oid := None)\<rparr>)
                        a remaining_size))"

text \<open>
  \<open>match\<close>. First the taker, looked up among the unreflected orders; then the maker
  side, where the branch is chosen by \<open>side == 'buy'\<close>. The two \<open>return\<close> statements
  leave before \<open>on_match\<close>.
\<close>

definition match_taker :: "order_book \<Rightarrow> rat \<Rightarrow> jval \<Rightarrow> order_book" where
  "match_taker b sz taker_order_id =
     (case order_id_to_unreflected_order b taker_order_id of
        None \<Rightarrow> logging b ERROR ''Unable to find taker order for trade''
      | Some ta \<Rightarrow>
          (case osize (objs b ! ta) of
             None \<Rightarrow>
               logging
                 (b\<lparr>order_id_to_unreflected_order :=
                      (order_id_to_unreflected_order b)(taker_order_id := None)\<rparr>)
                 DEBUG ''Taker order with no size removed''
           | Some tsz \<Rightarrow>
               if tsz = 0 then
                 logging
                   (b\<lparr>order_id_to_unreflected_order :=
                        (order_id_to_unreflected_order b)(taker_order_id := None)\<rparr>)
                   DEBUG ''Taker order with no size removed''
               else if tsz - sz \<le> 0 then
                 logging
                   ((set_osize b ta (Some (tsz - sz)))
                      \<lparr>order_id_to_unreflected_order :=
                         (order_id_to_unreflected_order b)(taker_order_id := None)\<rparr>)
                   DEBUG ''Matched taker fully filled''
               else logging (set_osize b ta (Some (tsz - sz))) DEBUG ''Matched taker''))"

definition match ::
  "order_book \<Rightarrow> Side \<Rightarrow> rat \<Rightarrow> rat \<Rightarrow> jval \<Rightarrow> jval \<Rightarrow> outcome" where
  "match b sd p sz maker_order_id taker_order_id =
     (let b1 = (case order_id_to_order b maker_order_id of
                  Some mo \<Rightarrow> b
                | None \<Rightarrow> logging b ERROR ''Unable to find maker order for trade'');
          b2 = match_taker b1 sz taker_order_id
      in if Side_eq_str sd ''buy'' then
           raise_in b2 (get_bids b2 (Some p)) (\<lambda>lv.
             case lv of
               None \<Rightarrow> Inr b2
             | Some [] \<Rightarrow> Inr b2
             | Some (h # rest) \<Rightarrow>
                 if order_id (objs b2 ! h) \<noteq> maker_order_id then Inl (AssertionError, b2)
                 else then_do
                        (if osize (objs b2 ! h) = Some sz then set_bids b2 (Some p) rest
                         else (case osize (objs b2 ! h) of
                                 None \<Rightarrow> Inl (TypeError, b2)
                               | Some hs \<Rightarrow>
                                   set_bids (set_osize b2 h (Some (hs - sz))) (Some p) (h # rest)))
                        on_match)
         else
           raise_in b2 (get_asks b2 (Some p)) (\<lambda>lv.
             case lv of
               None \<Rightarrow> Inr b2
             | Some [] \<Rightarrow> Inr b2
             | Some (h # rest) \<Rightarrow>
                 if order_id (objs b2 ! h) \<noteq> maker_order_id then Inl (AssertionError, b2)
                 else then_do
                        (if osize (objs b2 ! h) = Some sz then set_asks b2 (Some p) rest
                         else (case osize (objs b2 ! h) of
                                 None \<Rightarrow> Inl (TypeError, b2)
                               | Some hs \<Rightarrow>
                                   set_asks (set_osize b2 h (Some (hs - sz))) (Some p) (h # rest)))
                        on_match))"

definition change :: "order_book \<Rightarrow> jval \<Rightarrow> rat \<Rightarrow> rat \<Rightarrow> outcome" where
  "change b oid old_size new_size =
     (case order_id_to_order b oid of
        None \<Rightarrow> Inr (logging b ERROR ''Trying to change unrecognized'')
      | Some a \<Rightarrow>
          let b1 = (if osize (objs b ! a) \<noteq> Some old_size
                    then logging b ERROR ''Trying to change order but old_size does not match''
                    else b)
          in on_change (set_osize b1 a (Some new_size)) a)"

definition received :: "order_book \<Rightarrow> nat \<Rightarrow> jval \<Rightarrow> outcome" where
  "received b a otype =
     on_received
       (b\<lparr>order_id_to_unreflected_order :=
            (order_id_to_unreflected_order b)(order_id (objs b ! a) \<mapsto> a)\<rparr>) a otype"

subsection \<open>update_order_book\<close>

text \<open>
  The five branches of \<open>update_order_book\<close> are written as one definition each; every
  one reads its fields in the order of the source, so that the first missing or
  malformed field decides the exception.
\<close>

definition open_branch :: "order_book \<Rightarrow> message \<Rightarrow> int \<Rightarrow> outcome" where
  "open_branch b m n =
     raise_in b (bindE (getitem m ''time'') strptime) (\<lambda>t.
     raise_in b (getitem m ''order_id'') (\<lambda>oid.
     raise_in b (bindE (getitem m ''remaining_size'') Decimal) (\<lambda>sz.
       case order_id_to_unreflected_order b oid of
         Some a \<Rightarrow>
           add (b\<lparr>objs := (objs b)[a := (objs b ! a)\<lparr>time := Some t, sequence := n,
                                                       osize := Some sz\<rparr>],
                  order_id_to_unreflected_order :=
                    (order_id_to_unreflected_order b)(oid := None)\<rparr>) a
       | None \<Rightarrow>
           raise_in b (getitem m ''product_id'') (\<lambda>pid.
           raise_in b (getitem m ''side'') (\<lambda>sd.
           raise_in b (bindE (getitem m ''price'') Decimal) (\<lambda>p.
             case new_order b
                    \<lparr>time = Some t, sequence = n, product_id = pid, order_id = oid,
                     order_type = JStr ''limit'', side = side_of sd, price = Some p,
                     osize = Some sz, funds = None\<rparr> of
               (a, b1) \<Rightarrow> add b1 a))))))"

definition done_branch :: "order_book \<Rightarrow> message \<Rightarrow> outcome" where
  "done_branch b m =
     raise_in b (getitem m ''order_id'') (\<lambda>oid.
     raise_in b (getitem m ''reason'') (\<lambda>reason.
     raise_in b (bindE (getitem m ''price'') Decimal) (\<lambda>p.
     raise_in b (getitem m ''side'') (\<lambda>sd.
     raise_in b (bindE (getitem m ''remaining_size'') Decimal) (\<lambda>remaining_size.
     raise_in b (bindE (getitem m ''time'') strptime) (\<lambda>t.
       remove_order b oid (side_of sd) p remaining_size))))))"

definition match_branch :: "order_book \<Rightarrow> message \<Rightarrow> outcome" where
  "match_branch b m =
     raise_in b (bindE (getitem m ''time'') strptime) (\<lambda>t.
     raise_in b (getitem m ''maker_order_id'') (\<lambda>maker_order_id.
     raise_in b (getitem m ''taker_order_id'') (\<lambda>taker_order_id.
     raise_in b (getitem m ''trade_id'') (\<lambda>trade_id.
     raise_in b (bindE (getitem m ''price'') Decimal) (\<lambda>p.
     raise_in b (getitem m ''side'') (\<lambda>sd.
     raise_in b (bindE (getitem m ''size'') Decimal) (\<lambda>sz.
       match b (side_of sd) p sz maker_order_id taker_order_id)))))))"

definition change_branch :: "order_book \<Rightarrow> message \<Rightarrow> outcome" where
  "change_branch b m =
     raise_in b (bindE (getitem m ''time'') strptime) (\<lambda>t.
     raise_in b (getitem m ''order_id'') (\<lambda>oid.
     raise_in b (bindE (getitem m ''price'') Decimal) (\<lambda>p.
     raise_in b (getitem m ''side'') (\<lambda>sd.
     raise_in b (bindE (getitem m ''new_size'') Decimal) (\<lambda>new_size.
     raise_in b (bindE (getitem m ''old_size'') Decimal) (\<lambda>old_size.
       change b oid old_size new_size))))))"

text \<open>Price, size and funds of a received order, by order type.\<close>

definition raw_funds :: "jval \<Rightarrow> (rat + jval) option" where
  "raw_funds v = (if v = JNull then None else Some (Inr v))"

definition received_terms ::
  "message \<Rightarrow> jval \<Rightarrow> error + (rat option \<times> rat option \<times> (rat + jval) option)" where
  "received_terms m otype =
     (if otype = JStr ''market'' then
        bindE (if truthy (get_default m ''size'')
               then bindE (Decimal (get_default m ''size'')) (\<lambda>d. Inr (Some d))
               else Inr None) (\<lambda>sz.
        bindE (if truthy (get_default m ''funds'')
               then bindE (Decimal (get_default m ''funds'')) (\<lambda>d. Inr (Some (Inl d)))
               else Inr None) (\<lambda>fd.
          Inr (None, sz, fd)))
      else if otype = JStr ''limit'' then
        bindE (bindE (getitem m ''size'') Decimal) (\<lambda>sz.
        bindE (bindE (getitem m ''price'') Decimal) (\<lambda>p.
          Inr (Some p, Some sz, raw_funds (get_default m ''funds''))))
      else
        bindE (Decimal (get_default m ''size'')) (\<lambda>sz.
        bindE (Decimal (get_default m ''price'')) (\<lambda>p.
          Inr (Some p, Some sz, raw_funds (get_default m ''funds'')))))"

definition received_branch :: "order_book \<Rightarrow> message \<Rightarrow> int \<Rightarrow> outcome" where
  "received_branch b m n =
     raise_in b (getitem m ''order_type'') (\<lambda>otype.
     raise_in b (received_terms m otype) (\<lambda>(p, sz, fd).
     raise_in b (bindE (getitem m ''time'') strptime) (\<lambda>t.
     raise_in b (getitem m ''product_id'') (\<lambda>pid.
     raise_in b (getitem m ''order_id'') (\<lambda>oid.
     raise_in b (getitem m ''side'') (\<lambda>sd.
       case new_order b
              \<lparr>time = Some t, sequence = n, product_id = pid, order_id = oid,
               order_type = otype, side = side_of sd, price = p, osize = sz,
               funds = fd\<rparr> of
         (a, b1) \<Rightarrow> received b1 a otype))))))"

definition dispatch :: "order_book \<Rightarrow> message \<Rightarrow> int \<Rightarrow> jval \<Rightarrow> outcome" where
  "dispatch b m n msg_type =
     (if msg_type = JStr ''open'' then open_branch b m n
      else if msg_type = JStr ''done'' \<and> m ''price'' \<noteq> None then done_branch b m
      else if msg_type = JStr ''match'' then match_branch b m
      else if msg_type = JStr ''change'' then change_branch b m
      else if msg_type = JStr ''received'' then received_branch b m n
      else Inr b)"

definition update_order_book :: "order_book \<Rightarrow> message \<Rightarrow> outcome" where
  "update_order_book b m =
     raise_in b (getitem m ''sequence'') (\<lambda>sv.
       case sv of
         JInt n \<Rightarrow>
           if n \<le> book_sequence b then Inr b
           else if n > book_sequence b + 1
             then Inl (Exception n (book_sequence b), b)
           else raise_in b (getitem m ''type'') (\<lambda>msg_type.
                  then_do (dispatch b m n msg_type)
                    (\<lambda>b1. Inr (b1\<lparr>book_sequence := n\<rparr>)))
       | _ \<Rightarrow> Inl (TypeError, b))"

definition on_message :: "order_book \<Rightarrow> message \<Rightarrow> outcome" where
  "on_message b m =
     (if pending_order_book_snapshot b then Inr (b\<lparr>message_queue := message_queue b @ [m]\<rparr>)
      else update_order_book b m)"

subsection \<open>Snapshots\<close>

definition row_get :: "jval list \<Rightarrow> nat \<Rightarrow> error + jval" where
  "row_get r i = (if i < length r then Inr (r ! i) else Inl IndexError)"

definition parse_snapshot_order :: "order_book \<Rightarrow> jval list \<Rightarrow> int \<Rightarrow> Side \<Rightarrow> error + order" where
  "parse_snapshot_order b r sq sd =
     bindE (row_get r 2) (\<lambda>oid.
     bindE (bindE (row_get r 0) Decimal) (\<lambda>p.
     bindE (bindE (row_get r 1) Decimal) (\<lambda>sz.
       Inr \<lparr>time = None, sequence = sq, product_id = book_product_id b, order_id = oid,
            order_type = JStr ''limit'', side = sd, price = Some p, osize = Some sz,
            funds = None\<rparr>)))"

text \<open>The two \<open>for\<close> loops of \<open>apply_order_book_snapshot\<close>, one side each.\<close>

fun add_snapshot_orders :: "order_book \<Rightarrow> int \<Rightarrow> Side \<Rightarrow> jval list list \<Rightarrow> outcome" where
  "add_snapshot_orders b sq sd [] = Inr b"
| "add_snapshot_orders b sq sd (r # rs) =
     raise_in b (parse_snapshot_order b r sq sd) (\<lambda>x.
       case new_order b x of
         (a, b1) \<Rightarrow> then_do (add b1 a) (\<lambda>b2. add_snapshot_orders b2 sq sd rs))"

definition apply_order_book_snapshot :: "order_book \<Rightarrow> snapshot \<Rightarrow> outcome" where
  "apply_order_book_snapshot b snap =
     then_do
       (add_snapshot_orders (b\<lparr>asks := [], bids := [], order_id_to_order := Map.empty\<rparr>)
          (snap_sequence snap) BUY (snap_bids snap))
       (\<lambda>b1. then_do (add_snapshot_orders b1 (snap_sequence snap) SELL (snap_asks snap))
                (\<lambda>b2. Inr (b2\<lparr>book_sequence := snap_sequence snap\<rparr>)))"

text \<open>
  The loop \<open>while self.message_queue: message = popleft(); update_order_book(message)\<close>.
  \<open>update_order_book\<close> never touches the queue, so the loop runs once over the queue
  it finds; the second argument is the part of the queue still to be drained.
\<close>

fun drain :: "order_book \<Rightarrow> message list \<Rightarrow> outcome" where
  "drain b [] = Inr b"
| "drain b (m # ms) = then_do (update_order_book (b\<lparr>message_queue := ms\<rparr>) m) (\<lambda>b1. drain b1 ms)"

definition set_pending_order_book_snapshot :: "order_book \<Rightarrow> order_book" where
  "set_pending_order_book_snapshot b =
     logging (b\<lparr>pending_order_book_snapshot := True\<rparr>) DEBUG ''Pending order book snapshot''"

text \<open>
  \<open>on_order_book_snapshot(result)\<close>: \<open>result['data']\<close> is None when the response body was
  not JSON, and then \<open>data['sequence']\<close> raises TypeError.
\<close>

definition on_order_book_snapshot :: "order_book \<Rightarrow> snapshot option \<Rightarrow> outcome" where
  "on_order_book_snapshot b data =
     (case data of
        None \<Rightarrow> Inl (TypeError, b)
      | Some snap \<Rightarrow>
          let b1 = logging b INFO ''Order Book Snapshot received'';
              b2 = b1\<lparr>snapshots := snapshots b1 @ [snap]\<rparr>
          in then_do (apply_order_book_snapshot b2 snap) (\<lambda>b3.
             then_do (drain b3 (message_queue b3)) (\<lambda>b4.
               Inr (b4\<lparr>pending_order_book_snapshot := False\<rparr>))))"

section \<open>OrderBookManager\<close>

text \<open>
  The manager keeps one book per product. The two collaborators are reduced to what the
  manager does with them: \<open>ws_connected\<close> is \<open>ws_client.ws\<close> being set, \<open>ws_written\<close>
  lists the products of the subscribe frames written, and \<open>requests\<close> lists the products
  of the snapshot requests handed to the REST client.
\<close>

record manager =
  product_id_to_order_book :: "jval \<rightharpoonup> order_book"
  ws_connected :: bool
  ws_written :: "jval list"
  requests :: "jval list"
  mgr_logs :: "(level \<times> string) list"

type_synonym mgr_outcome = "(error \<times> manager) + manager"

definition get_order_book :: "manager \<Rightarrow> jval \<Rightarrow> order_book option" where
  "get_order_book mg pid = product_id_to_order_book mg pid"

definition subscribe :: "manager \<Rightarrow> jval \<Rightarrow> mgr_outcome" where
  "subscribe mg pid =
     (if \<not> ws_connected mg then Inl (Disconnected, mg)
      else Inr (mg\<lparr>ws_written := ws_written mg @ [pid],
                  mgr_logs := mgr_logs mg @ [(DEBUG, ''Subscribing to WS'')]\<rparr>))"

definition init_order_book :: "manager \<Rightarrow> jval \<Rightarrow> mgr_outcome" where
  "init_order_book mg pid =
     (if product_id_to_order_book mg pid \<noteq> None then Inl (AlreadyInitialized, mg)
      else subscribe
             (mg\<lparr>product_id_to_order_book :=
                  (product_id_to_order_book mg)(pid \<mapsto> OrderBook pid)\<rparr>) pid)"

definition fetch_order_book_snapshot :: "manager \<Rightarrow> jval \<Rightarrow> order_book \<Rightarrow> manager" where
  "fetch_order_book_snapshot mg pid ob =
     mg\<lparr>product_id_to_order_book :=
          (product_id_to_order_book mg)(pid \<mapsto> set_pending_order_book_snapshot ob),
        requests := requests mg @ [book_product_id ob],
        mgr_logs := mgr_logs mg @ [(INFO, ''Requesting Order Book Snapshot'')]\<rparr>"

definition manager_on_message :: "manager \<Rightarrow> message \<Rightarrow> mgr_outcome" where
  "manager_on_message mg m =
     (case getitem m ''product_id'' of
        Inl e \<Rightarrow> Inl (e, mg)
      | Inr pid \<Rightarrow>
          (case get_order_book mg pid of
             Some ob \<Rightarrow>
               let first = (snapshots ob = [] \<and> \<not> pending_order_book_snapshot ob);
                   mg1 = (if first then fetch_order_book_snapshot mg pid ob else mg);
                   ob0 = (if first then set_pending_order_book_snapshot ob else ob)
               in (case on_message ob0 m of
                     Inl (e, ob1) \<Rightarrow>
                       Inl (e, mg1\<lparr>product_id_to_order_book :=
                                     (product_id_to_order_book mg1)(pid \<mapsto> ob1)\<rparr>)
                   | Inr ob1 \<Rightarrow>
                       Inr (mg1\<lparr>product_id_to_order_book :=
                                  (product_id_to_order_book mg1)(pid \<mapsto> ob1)\<rparr>))
           | None \<Rightarrow>
               Inr (mg\<lparr>mgr_logs := mgr_logs mg
                          @ [(WARNING, ''Received message for unregistered product'')]\<rparr>)))"

section \<open>Concrete inputs\<close>

text \<open>The inputs of the scenarios evaluated below.\<close>

definition ETH :: jval where
  "ETH = JStr ''ETH-USD''"

definition stamp :: string where
  "stamp = ''2014-11-07T08:19:27.028459Z''"

definition snapshot_300 :: snapshot where
  "snapshot_300 = \<lparr>snap_sequence = 300, snap_bids = [], snap_asks = []\<rparr>"

text \<open>The book right after \<open>snapshot_300\<close>.\<close>

definition book_300 :: order_book where
  "book_300 =
     \<lparr> book_product_id = ETH, asks = [], bids = [],
       order_id_to_order = Map.empty, order_id_to_unreflected_order = Map.empty,
       pending_order_book_snapshot = False, book_sequence = 300,
       snapshots = [snapshot_300], message_queue = [], objs = [],
       logs = [(INFO, ''Order Book Snapshot received'')] \<rparr>"

definition received_T :: "int \<Rightarrow> message" where
  "received_T n =
     [''type'' \<mapsto> JStr ''received'', ''sequence'' \<mapsto> JInt n, ''time'' \<mapsto> JStr stamp,
      ''product_id'' \<mapsto> ETH, ''order_id'' \<mapsto> JStr ''T'', ''side'' \<mapsto> JStr ''sell'',
      ''price'' \<mapsto> JStr ''9.99'', ''size'' \<mapsto> JStr ''0.5'', ''order_type'' \<mapsto> JStr ''limit'']"

definition order_T :: "int \<Rightarrow> order" where
  "order_T n =
     \<lparr>time = Some stamp, sequence = n, product_id = ETH, order_id = JStr ''T'',
      order_type = JStr ''limit'', side = SELL, price = Some (999 / 100),
      osize = Some (1 / 2), funds = None\<rparr>"

text \<open>The book after \<open>book_300\<close> has taken \<open>received_T 301\<close>: \<open>T\<close> is pending.\<close>

definition book_301 :: order_book where
  "book_301 =
     book_300\<lparr>order_id_to_unreflected_order := [JStr ''T'' \<mapsto> 0], book_sequence := 301,
              objs := [order_T 301],
              logs := [(INFO, ''Order Book Snapshot received''), (DEBUG, ''Received'')]\<rparr>"

text \<open>A \<open>done\<close> of a market order: no price field.\<close>

definition done_T_no_price :: "int \<Rightarrow> message" where
  "done_T_no_price n =
     [''type'' \<mapsto> JStr ''done'', ''sequence'' \<mapsto> JInt n, ''time'' \<mapsto> JStr stamp,
      ''product_id'' \<mapsto> ETH, ''order_id'' \<mapsto> JStr ''T'', ''side'' \<mapsto> JStr ''sell'',
      ''remaining_size'' \<mapsto> JStr ''0'', ''reason'' \<mapsto> JStr ''filled'']"

definition manager_300 :: manager where
  "manager_300 =
     \<lparr> product_id_to_order_book = [ETH \<mapsto> book_300], ws_connected = True,
       ws_written = [ETH], requests = [ETH],
       mgr_logs = [(DEBUG, ''Subscribing to WS''), (INFO, ''Requesting Order Book Snapshot'')] \<rparr>"

definition manager_0 :: manager where
  "manager_0 =
     \<lparr> product_id_to_order_book = Map.empty, ws_connected = True, ws_written = [],
       requests = [], mgr_logs = [] \<rparr>"

text \<open>The manager after \<open>init_order_book manager_0 ETH\<close>: a fresh book for the product.\<close>

definition manager_1 :: manager where
  "manager_1 =
     \<lparr> product_id_to_order_book = [ETH \<mapsto> OrderBook ETH], ws_connected = True,
       ws_written = [ETH], requests = [], mgr_logs = [(DEBUG, ''Subscribing to WS'')] \<rparr>"

text \<open>
  Scenario S2 of the specification: the snapshot at 200 with the bid \<open>B\<close> of size 2.0 at
  10.00, then \<open>received_T 201\<close>, the match of \<open>B\<close> against \<open>T\<close> and the \<open>done\<close> of \<open>T\<close>.
\<close>

definition snapshot_S2 :: snapshot where
  "snapshot_S2 =
     \<lparr>snap_sequence = 200, snap_bids = [[JStr ''10.00'', JStr ''2.0'', JStr ''B'']],
      snap_asks = []\<rparr>"

definition match_B_T :: message where
  "match_B_T =
     [''type'' \<mapsto> JStr ''match'', ''sequence'' \<mapsto> JInt 202, ''time'' \<mapsto> JStr stamp,
      ''product_id'' \<mapsto> ETH, ''maker_order_id'' \<mapsto> JStr ''B'',
      ''taker_order_id'' \<mapsto> JStr ''T'', ''side'' \<mapsto> JStr ''buy'',
      ''price'' \<mapsto> JStr ''10.00'', ''size'' \<mapsto> JStr ''0.5'', ''trade_id'' \<mapsto> JInt 77]"

definition done_T :: message where
  "done_T =
     [''type'' \<mapsto> JStr ''done'', ''sequence'' \<mapsto> JInt 203, ''time'' \<mapsto> JStr stamp,
      ''product_id'' \<mapsto> ETH, ''order_id'' \<mapsto> JStr ''T'', ''side'' \<mapsto> JStr ''sell'',
      ''price'' \<mapsto> JStr ''9.99'', ''remaining_size'' \<mapsto> JStr ''0'',
      ''reason'' \<mapsto> JStr ''filled'']"

definition run_S2 :: outcome where
  "run_S2 =
     then_do (on_order_book_snapshot (OrderBook ETH) (Some snapshot_S2)) (\<lambda>b0.
     then_do (on_message b0 (received_T 201)) (\<lambda>b1.
     then_do (on_message b1 match_B_T) (\<lambda>b2.
       on_message b2 done_T)))"

definition order_B :: order where
  "order_B =
     \<lparr>time = None, sequence = 200, product_id = ETH, order_id = JStr ''B'',
      order_type = JStr ''limit'', side = BUY, price = Some 10, osize = Some 2,
      funds = None\<rparr>"

definition book_S2 :: order_book where
  "book_S2 =
     \<lparr> book_product_id = ETH, asks = [], bids = [(Some 10, [0])],
       order_id_to_order = [JStr ''B'' \<mapsto> 0], order_id_to_unreflected_order = Map.empty,
       pending_order_book_snapshot = False, book_sequence = 203,
       snapshots = [snapshot_S2], message_queue = [],
       objs = [order_B, (order_T 201)\<lparr>osize := Some 0\<rparr>],
       logs = [(INFO, ''Order Book Snapshot received''), (DEBUG, ''Added''),
               (DEBUG, ''Received''), (DEBUG, ''Matched taker fully filled''),
               (ERROR, ''Trying to remove unrecognized'')] \<rparr>"

text \<open>The books on the way: after the snapshot, after the receipt, after the match.\<close>

definition book_S2_200 :: order_book where
  "book_S2_200 =
     book_S2\<lparr>book_sequence := 200, objs := [order_B],
             logs := [(INFO, ''Order Book Snapshot received''), (DEBUG, ''Added'')]\<rparr>"

definition book_S2_201 :: order_book where
  "book_S2_201 =
     book_S2\<lparr>book_sequence := 201, objs := [order_B, order_T 201],
             order_id_to_unreflected_order := [JStr ''T'' \<mapsto> 1],
             logs := [(INFO, ''Order Book Snapshot received''), (DEBUG, ''Added''),
                      (DEBUG, ''Received'')]\<rparr>"

definition book_S2_202 :: order_book where
  "book_S2_202 =
     book_S2\<lparr>book_sequence := 202,
             logs := [(INFO, ''Order Book Snapshot received''), (DEBUG, ''Added''),
                      (DEBUG, ''Received''), (DEBUG, ''Matched taker fully filled'')]\<rparr>"

text \<open>
  A book with one bid and one ask, and the sell-side match of size 1.5 at 10.00 with the
  maker \<open>mk\<close>; with \<open>A\<close> for the maker it fills the only ask at 10.00 completely.
\<close>

definition snapshot_400 :: snapshot where
  "snapshot_400 =
     \<lparr>snap_sequence = 400, snap_bids = [[JStr ''9.00'', JStr ''1.0'', JStr ''B'']],
      snap_asks = [[JStr ''10.00'', JStr ''1.5'', JStr ''A'']]\<rparr>"

definition match_maker :: "string \<Rightarrow> message" where
  "match_maker mk =
     [''type'' \<mapsto> JStr ''match'', ''sequence'' \<mapsto> JInt 401, ''time'' \<mapsto> JStr stamp,
      ''product_id'' \<mapsto> ETH, ''maker_order_id'' \<mapsto> JStr mk,
      ''taker_order_id'' \<mapsto> JStr ''U'', ''side'' \<mapsto> JStr ''sell'',
      ''price'' \<mapsto> JStr ''10.00'', ''size'' \<mapsto> JStr ''1.5'', ''trade_id'' \<mapsto> JInt 78]"

definition order_400 :: "string \<Rightarrow> Side \<Rightarrow> rat \<Rightarrow> rat \<Rightarrow> order" where
  "order_400 oid sd p sz =
     \<lparr>time = None, sequence = 400, product_id = ETH, order_id = JStr oid,
      order_type = JStr ''limit'', side = sd, price = Some p, osize = Some sz,
      funds = None\<rparr>"

definition book_400 :: order_book where
  "book_400 =
     \<lparr> book_product_id = ETH, asks = [(Some 10, [1])], bids = [(Some 9, [0])],
       order_id_to_order = [JStr ''B'' \<mapsto> 0, JStr ''A'' \<mapsto> 1],
       order_id_to_unreflected_order = Map.empty,
       pending_order_book_snapshot = False, book_sequence = 400,
       snapshots = [snapshot_400], message_queue = [],
       objs = [order_400 ''B'' BUY 9 1, order_400 ''A'' SELL 10 (3 / 2)],
       logs = [(INFO, ''Order Book Snapshot received''), (DEBUG, ''Added''),
               (DEBUG, ''Added'')] \<rparr>"

text \<open>The book after the match of \<open>A\<close> by \<open>match_maker ''A''\<close>.\<close>

definition book_401 :: order_book where
  "book_401 =
     book_400\<lparr>asks := [(Some 10, [])], book_sequence := 401,
              logs := logs book_400 @ [(ERROR, ''Unable to find taker order for trade''),
                                       (INFO, ''Trade'')]\<rparr>"

text \<open>
  Two events that disagree with \<open>book_400\<close>: a \<open>done\<close> of \<open>B\<close> at 9.50, where \<open>B\<close> rests
  at 9.00, and a \<open>change\<close> of \<open>A\<close> whose \<open>old_size\<close> is 9, where \<open>A\<close> has size 1.5.
\<close>

definition done_B_other_price :: message where
  "done_B_other_price =
     [''type'' \<mapsto> JStr ''done'', ''sequence'' \<mapsto> JInt 401, ''time'' \<mapsto> JStr stamp,
      ''product_id'' \<mapsto> ETH, ''order_id'' \<mapsto> JStr ''B'', ''side'' \<mapsto> JStr ''buy'',
      ''price'' \<mapsto> JStr ''9.50'', ''remaining_size'' \<mapsto> JStr ''1.0'',
      ''reason'' \<mapsto> JStr ''canceled'']"

definition change_A_other_size :: message where
  "change_A_other_size =
     [''type'' \<mapsto> JStr ''change'', ''sequence'' \<mapsto> JInt 401, ''time'' \<mapsto> JStr stamp,
      ''product_id'' \<mapsto> ETH, ''order_id'' \<mapsto> JStr ''A'', ''side'' \<mapsto> JStr ''sell'',
      ''price'' \<mapsto> JStr ''10.00'', ''old_size'' \<mapsto> JStr ''9'', ''new_size'' \<mapsto> JStr ''1'']"

text \<open>
  Two asks at one price, \<open>A\<close> ahead of \<open>C\<close>, and a buyer \<open>V\<close> of size 2 that is received
  and then reported as matched, for its whole size, against \<open>C\<close>.
\<close>

definition snapshot_600 :: snapshot where
  "snapshot_600 =
     \<lparr>snap_sequence = 600, snap_bids = [],
      snap_asks = [[JStr ''10.00'', JStr ''1.5'', JStr ''A''],
                   [JStr ''10.00'', JStr ''2.0'', JStr ''C'']]\<rparr>"

definition order_600 :: "string \<Rightarrow> rat \<Rightarrow> order" where
  "order_600 oid sz =
     \<lparr>time = None, sequence = 600, product_id = ETH, order_id = JStr oid,
      order_type = JStr ''limit'', side = SELL, price = Some 10, osize = Some sz,
      funds = None\<rparr>"

definition book_600 :: order_book where
  "book_600 =
     \<lparr> book_product_id = ETH, asks = [(Some 10, [0, 1])], bids = [],
       order_id_to_order = [JStr ''A'' \<mapsto> 0, JStr ''C'' \<mapsto> 1],
       order_id_to_unreflected_order = Map.empty,
       pending_order_book_snapshot = False, book_sequence = 600,
       snapshots = [snapshot_600], message_queue = [],
       objs = [order_600 ''A'' (3 / 2), order_600 ''C'' 2],
       logs = [(INFO, ''Order Book Snapshot received''), (DEBUG, ''Added''),
               (DEBUG, ''Added'')] \<rparr>"

definition received_V :: message where
  "received_V =
     [''type'' \<mapsto> JStr ''received'', ''sequence'' \<mapsto> JInt 601, ''time'' \<mapsto> JStr stamp,
      ''product_id'' \<mapsto> ETH, ''order_id'' \<mapsto> JStr ''V'', ''side'' \<mapsto> JStr ''buy'',
      ''price'' \<mapsto> JStr ''10.00'', ''size'' \<mapsto> JStr ''2.0'', ''order_type'' \<mapsto> JStr ''limit'']"

definition order_V :: "rat \<Rightarrow> order" where
  "order_V sz =
     \<lparr>time = Some stamp, sequence = 601, product_id = ETH, order_id = JStr ''V'',
      order_type = JStr ''limit'', side = BUY, price = Some 10, osize = Some sz,
      funds = None\<rparr>"

definition book_601 :: order_book where
  "book_601 =
     book_600\<lparr>order_id_to_unreflected_order := [JStr ''V'' \<mapsto> 2], book_sequence := 601,
              objs := [order_600 ''A'' (3 / 2), order_600 ''C'' 2, order_V 2],
              logs := logs book_600 @ [(DEBUG, ''Received'')]\<rparr>"

definition match_C_V :: message where
  "match_C_V =
     [''type'' \<mapsto> JStr ''match'', ''sequence'' \<mapsto> JInt 602, ''time'' \<mapsto> JStr stamp,
      ''product_id'' \<mapsto> ETH, ''maker_order_id'' \<mapsto> JStr ''C'',
      ''taker_order_id'' \<mapsto> JStr ''V'', ''side'' \<mapsto> JStr ''sell'',
      ''price'' \<mapsto> JStr ''10.00'', ''size'' \<mapsto> JStr ''2.0'', ''trade_id'' \<mapsto> JInt 79]"

text \<open>
  The book that the failed \<open>assert\<close> of that match leaves: \<open>V\<close> has been decremented to
  0 and is no longer pending, the asks and the sequence are those of \<open>book_601\<close>.
\<close>

definition book_601_aborted :: order_book where
  "book_601_aborted =
     book_601\<lparr>order_id_to_unreflected_order := Map.empty,
              objs := [order_600 ''A'' (3 / 2), order_600 ''C'' 2, order_V 0],
              logs := logs book_601 @ [(DEBUG, ''Matched taker fully filled'')]\<rparr>"

text \<open>A \<open>done\<close> of \<open>B\<close> that agrees with \<open>book_400\<close>, and the book after it.\<close>

definition done_B :: message where
  "done_B =
     [''type'' \<mapsto> JStr ''done'', ''sequence'' \<mapsto> JInt 401, ''time'' \<mapsto> JStr stamp,
      ''product_id'' \<mapsto> ETH, ''order_id'' \<mapsto> JStr ''B'', ''side'' \<mapsto> JStr ''buy'',
      ''price'' \<mapsto> JStr ''9.00'', ''remaining_size'' \<mapsto> JStr ''1.0'',
      ''reason'' \<mapsto> JStr ''canceled'']"

definition book_400_done_B :: order_book where
  "book_400_done_B =
     book_400\<lparr>bids := [], order_id_to_order := [JStr ''A'' \<mapsto> 1], book_sequence := 401,
              logs := logs book_400 @ [(DEBUG, ''Removed'')]\<rparr>"

text \<open>
  Scenario S5 of the specification. \<open>replay_S5\<close>: five events arrive while the snapshot
  is pending, then the snapshot arrives. \<open>direct_S5\<close>: the snapshot arrives with nothing
  buffered, then the last two events arrive.
\<close>

definition replay_S5 ::
  "order_book \<Rightarrow> snapshot \<Rightarrow> message \<Rightarrow> message \<Rightarrow> message \<Rightarrow> message \<Rightarrow> message \<Rightarrow> outcome"
  where
  "replay_S5 b snap m48 m49 m50 m51 m52 =
     then_do (on_message b m48) (\<lambda>b1.
     then_do (on_message b1 m49) (\<lambda>b2.
     then_do (on_message b2 m50) (\<lambda>b3.
     then_do (on_message b3 m51) (\<lambda>b4.
     then_do (on_message b4 m52) (\<lambda>b5.
       on_order_book_snapshot b5 (Some snap))))))"

definition direct_S5 :: "order_book \<Rightarrow> snapshot \<Rightarrow> message \<Rightarrow> message \<Rightarrow> outcome" where
  "direct_S5 b snap m51 m52 =
     then_do (on_order_book_snapshot b (Some snap)) (\<lambda>b1.
     then_do (on_message b1 m51) (\<lambda>b2.
       on_message b2 m52))"

definition snapshot_50 :: snapshot where
  "snapshot_50 = \<lparr>snap_sequence = 50, snap_bids = [], snap_asks = []\<rparr>"

text \<open>A fresh book whose snapshot has been requested, and the book at the end of S5.\<close>

definition book_pending :: order_book where
  "book_pending = set_pending_order_book_snapshot (OrderBook ETH)"

definition book_52 :: order_book where
  "book_52 =
     \<lparr> book_product_id = ETH, asks = [], bids = [],
       order_id_to_order = Map.empty, order_id_to_unreflected_order = [JStr ''T'' \<mapsto> 1],
       pending_order_book_snapshot = False, book_sequence = 52,
       snapshots = [snapshot_50], message_queue = [],
       objs = [order_T 51, order_T 52],
       logs = [(DEBUG, ''Pending order book snapshot''),
               (INFO, ''Order Book Snapshot received''), (DEBUG, ''Received''),
               (DEBUG, ''Received'')] \<rparr>"

section \<open>Predicates used in the statements\<close>

text \<open>\<open>outcome_all P r\<close>: the book left by \<open>r\<close>, returned or raised, satisfies \<open>P\<close>.\<close>

definition outcome_all :: "(order_book \<Rightarrow> bool) \<Rightarrow> outcome \<Rightarrow> bool" where
  "outcome_all P r = (case r of Inl (e, b) \<Rightarrow> P b | Inr b \<Rightarrow> P b)"

text \<open>
  What a frame decodes to. \<open>is_done m n oid sd p r\<close> says that \<open>m\<close> is a \<open>done\<close> with a
  price, with sequence \<open>n\<close>, order id \<open>oid\<close>, side \<open>sd\<close>, price \<open>p\<close> and remaining size
  \<open>r\<close>, every field that the branch reads being there and well formed; likewise
  \<open>is_match\<close> and \<open>is_change\<close>.
\<close>

definition field_decimal :: "message \<Rightarrow> string \<Rightarrow> rat \<Rightarrow> bool" where
  "field_decimal m k d = (case m k of None \<Rightarrow> False | Some v \<Rightarrow> Decimal v = Inr d)"

definition field_time :: "message \<Rightarrow> bool" where
  "field_time m =
     (case m ''time'' of
        None \<Rightarrow> False
      | Some v \<Rightarrow> (case strptime v of Inl e \<Rightarrow> False | Inr t \<Rightarrow> True))"

definition field_side :: "message \<Rightarrow> Side \<Rightarrow> bool" where
  "field_side m sd = (case m ''side'' of None \<Rightarrow> False | Some v \<Rightarrow> side_of v = sd)"

definition is_done :: "message \<Rightarrow> int \<Rightarrow> jval \<Rightarrow> Side \<Rightarrow> rat \<Rightarrow> rat \<Rightarrow> bool" where
  "is_done m n oid sd p r =
     (m ''sequence'' = Some (JInt n) \<and> m ''type'' = Some (JStr ''done'') \<and>
      m ''order_id'' = Some oid \<and> m ''reason'' \<noteq> None \<and> field_decimal m ''price'' p \<and>
      field_side m sd \<and> field_decimal m ''remaining_size'' r \<and> field_time m)"

definition is_match ::
  "message \<Rightarrow> int \<Rightarrow> jval \<Rightarrow> jval \<Rightarrow> Side \<Rightarrow> rat \<Rightarrow> rat \<Rightarrow> bool" where
  "is_match m n maker taker sd p sz =
     (m ''sequence'' = Some (JInt n) \<and> m ''type'' = Some (JStr ''match'') \<and> field_time m \<and>
      m ''maker_order_id'' = Some maker \<and> m ''taker_order_id'' = Some taker \<and>
      m ''trade_id'' \<noteq> None \<and> field_decimal m ''price'' p \<and> field_side m sd \<and>
      field_decimal m ''size'' sz)"

definition is_change :: "message \<Rightarrow> int \<Rightarrow> jval \<Rightarrow> rat \<Rightarrow> rat \<Rightarrow> bool" where
  "is_change m n oid old_size new_size =
     (m ''sequence'' = Some (JInt n) \<and> m ''type'' = Some (JStr ''change'') \<and> field_time m \<and>
      m ''order_id'' = Some oid \<and> (case m ''price'' of None \<Rightarrow> False
                                   | Some v \<Rightarrow> (case Decimal v of Inl e \<Rightarrow> False | Inr d \<Rightarrow> True)) \<and>
      m ''side'' \<noteq> None \<and> field_decimal m ''new_size'' new_size \<and>
      field_decimal m ''old_size'' old_size)"

text \<open>\<open>logged_error b b'\<close>: among the log records that \<open>b'\<close> has beyond those of \<open>b\<close>, one is an error.\<close>

definition logged_error :: "order_book \<Rightarrow> order_book \<Rightarrow> bool" where
  "logged_error b b' = list_ex (\<lambda>e. fst e = ERROR) (drop (length (logs b)) (logs b'))"

text \<open>
  \<open>buffering q f b\<close> is the book \<open>b\<close> with the queue \<open>q\<close> and the pending flag \<open>f\<close>, the
  two fields that only the reconciliation writes; \<open>map_outcome g r\<close> applies \<open>g\<close> to the
  book that the outcome \<open>r\<close> carries.
\<close>

definition buffering :: "message list \<Rightarrow> bool \<Rightarrow> order_book \<Rightarrow> order_book" where
  "buffering q f b = b\<lparr>message_queue := q, pending_order_book_snapshot := f\<rparr>"

definition map_outcome :: "(order_book \<Rightarrow> order_book) \<Rightarrow> outcome \<Rightarrow> outcome" where
  "map_outcome g r = (case r of Inl (e, b) \<Rightarrow> Inl (e, g b) | Inr b \<Rightarrow> Inr (g b))"

text \<open>
  Reading a book by value. \<open>level_orders b t k\<close> is the queue of orders at the key \<open>k\<close>
  of the tree \<open>t\<close>, \<open>resting_order b oid\<close> the order that \<open>order_id_to_order\<close> holds
  for \<open>oid\<close>, and \<open>ladder_of sd b\<close> the tree of the side \<open>sd\<close>.
\<close>

definition level_orders :: "order_book \<Rightarrow> ladder \<Rightarrow> rat option \<Rightarrow> order list option" where
  "level_orders b t k = map_option (map (\<lambda>a. objs b ! a)) (map_of t k)"

definition resting_order :: "order_book \<Rightarrow> jval \<Rightarrow> order option" where
  "resting_order b oid = map_option (\<lambda>a. objs b ! a) (order_id_to_order b oid)"

definition ladder_of :: "Side \<Rightarrow> order_book \<Rightarrow> ladder" where
  "ladder_of sd b = (if sd = BUY then bids b else asks b)"

text \<open>
  The rows of one side of a snapshot, parsed in order (\<open>parse_rows\<close>), and the rows among
  them that carry the price \<open>k\<close> (\<open>rows_at\<close>): None when there is none.
\<close>

fun parse_rows :: "order_book \<Rightarrow> int \<Rightarrow> Side \<Rightarrow> jval list list \<Rightarrow> error + order list" where
  "parse_rows b sq sd [] = Inr []"
| "parse_rows b sq sd (r # rs) =
     bindE (parse_snapshot_order b r sq sd) (\<lambda>x.
     bindE (parse_rows b sq sd rs) (\<lambda>xs. Inr (x # xs)))"

definition rows_at :: "order list \<Rightarrow> rat option \<Rightarrow> order list option" where
  "rows_at os k =
     (if filter (\<lambda>x. price x = k) os = [] then None else Some (filter (\<lambda>x. price x = k) os))"

text \<open>
  The loop invariant of \<open>add_snapshot_orders\<close>. \<open>side_loaded b0 sd os b'\<close>: from the
  book \<open>b0\<close>, whose tree of the side \<open>sd\<close> was empty, the orders \<open>os\<close> have been added
  and \<open>b'\<close> is the book reached.
\<close>

definition side_loaded :: "order_book \<Rightarrow> Side \<Rightarrow> order list \<Rightarrow> order_book \<Rightarrow> bool" where
  "side_loaded b0 sd os b' =
     (objs b' = objs b0 @ os \<and>
      (\<forall>k. level_orders b' (ladder_of sd b') k = rows_at os k) \<and>
      (\<forall>k l a. map_of (ladder_of sd b') k = Some l \<longrightarrow> a \<in> set l \<longrightarrow> a < length (objs b')) \<and>
      list_all (\<lambda>kv. fst kv \<noteq> None) (ladder_of sd b') \<and>
      (\<forall>s. s \<noteq> sd \<longrightarrow> ladder_of s b' = ladder_of s b0) \<and>
      (\<forall>oid. resting_order b' oid =
               (case find (\<lambda>x. order_id x = oid) (rev os) of
                  Some x \<Rightarrow> Some x
                | None \<Rightarrow> resting_order b0 oid)) \<and>
      (\<forall>oid a. order_id_to_order b' oid = Some a \<longrightarrow> a < length (objs b')) \<and>
      order_id_to_unreflected_order b' = order_id_to_unreflected_order b0 \<and>
      book_sequence b' = book_sequence b0 \<and> book_product_id b' = book_product_id b0)"

text \<open>
  The invariant I2 of the specification. \<open>queue_at b sd k\<close> is the queue of the side
  \<open>sd\<close> at the price \<open>k\<close>, empty where the tree has no level. \<open>I2 b\<close>: every id of
  \<open>order_id_to_order\<close> has exactly one entry in the queue of its order's side at its
  order's price, and none at another price of that side; and the id of every entry of a
  queue is a key of \<open>order_id_to_order\<close>.
\<close>

definition queue_at :: "order_book \<Rightarrow> Side \<Rightarrow> rat option \<Rightarrow> nat list" where
  "queue_at b sd k = (case map_of (ladder_of sd b) k of None \<Rightarrow> [] | Some l \<Rightarrow> l)"

definition I2 :: "order_book \<Rightarrow> bool" where
  "I2 b =
     ((\<forall>oid a. order_id_to_order b oid = Some a \<longrightarrow>
         length (filter (\<lambda>x. order_id (objs b ! x) = oid)
                   (queue_at b (side (objs b ! a)) (price (objs b ! a)))) = 1 \<and>
         (\<forall>k. k \<noteq> price (objs b ! a) \<longrightarrow>
              filter (\<lambda>x. order_id (objs b ! x) = oid) (queue_at b (side (objs b ! a)) k) = [])) \<and>
      (\<forall>sd k x. x \<in> set (queue_at b sd k) \<longrightarrow>
         order_id_to_order b (order_id (objs b ! x)) \<noteq> None))"

text \<open>
  The invariant that the methods keep, on the store \<open>os\<close>, the queues \<open>q\<close>, the resting
  orders \<open>d\<close> and the pending orders \<open>u\<close>: a resting order is a stored object filed under
  its own id, and it is in the queue of its own side and price; an entry of a queue is
  the resting order of its id and is in the queue of its own side and price; no queue
  has an entry twice; a pending order is a stored object filed under its own id, and is
  not the resting order of that id.
\<close>

definition inv_core ::
  "order list \<Rightarrow> (Side \<Rightarrow> rat option \<Rightarrow> nat list) \<Rightarrow> (jval \<rightharpoonup> nat) \<Rightarrow> (jval \<rightharpoonup> nat) \<Rightarrow> bool"
  where
  "inv_core os q d u =
     ((\<forall>oid a. d oid = Some a \<longrightarrow>
         a < length os \<and> order_id (os ! a) = oid \<and> a \<in> set (q (side (os ! a)) (price (os ! a)))) \<and>
      (\<forall>sd k x. x \<in> set (q sd k) \<longrightarrow>
         side (os ! x) = sd \<and> price (os ! x) = k \<and> d (order_id (os ! x)) = Some x) \<and>
      (\<forall>sd k. distinct (q sd k)) \<and>
      (\<forall>oid a. u oid = Some a \<longrightarrow>
         a < length os \<and> order_id (os ! a) = oid \<and> d oid \<noteq> Some a))"

definition book_inv :: "order_book \<Rightarrow> bool" where
  "book_inv b =
     inv_core (objs b) (queue_at b) (order_id_to_order b) (order_id_to_unreflected_order b)"

text \<open>
  \<open>fits_book b m\<close>: the event \<open>m\<close> agrees with the book \<open>b\<close> as far as I2 needs it. An
  \<open>open\<close> is for an id that is not resting; a \<open>done\<close> of a resting id carries the side
  and the price of the stored order; a \<open>match\<close> does not fill the whole of the head of
  the asks queue at its price, the queue that \<open>match\<close> reads.
\<close>

definition fits_book :: "order_book \<Rightarrow> message \<Rightarrow> bool" where
  "fits_book b m =
     ((m ''type'' = Some (JStr ''open'') \<longrightarrow>
         (\<forall>oid. m ''order_id'' = Some oid \<longrightarrow> order_id_to_order b oid = None)) \<and>
      (m ''type'' = Some (JStr ''done'') \<longrightarrow>
         (\<forall>oid a sd p. m ''order_id'' = Some oid \<and> order_id_to_order b oid = Some a \<and>
              field_side m sd \<and> field_decimal m ''price'' p
            \<longrightarrow> side (objs b ! a) = sd \<and> price (objs b ! a) = Some p)) \<and>
      (m ''type'' = Some (JStr ''match'') \<longrightarrow>
         (\<forall>p sz h rest. field_decimal m ''price'' p \<and> field_decimal m ''size'' sz \<and>
              map_of (asks b) (Some p) = Some (h # rest)
            \<longrightarrow> osize (objs b ! h) \<noteq> Some sz)))"

text \<open>\<open>returned_all P r\<close>: if \<open>r\<close> is a normal return, the book returned satisfies \<open>P\<close>.\<close>

definition returned_all :: "(order_book \<Rightarrow> bool) \<Rightarrow> outcome \<Rightarrow> bool" where
  "returned_all P r = (case r of Inl x \<Rightarrow> True | Inr b \<Rightarrow> P b)"

section \<open>Basic facts\<close>

lemma raise_in_simps [simp]:
  "raise_in b (Inl e) f = Inl (e, b)" "raise_in b (Inr x) f = f x"
  by (simp_all add: raise_in_def)

lemma then_do_simps [simp]:
  "then_do (Inl x) f = Inl x" "then_do (Inr b) f = f b"
  by (simp_all add: then_do_def)

lemma bindE_simps [simp]:
  "bindE (Inl e) g = Inl e" "bindE (Inr x) g = g x"
  by (simp_all add: bindE_def)

lemma outcome_all_simps [simp]:
  "outcome_all P (Inl (e, b)) = P b" "outcome_all P (Inr b) = P b"
  by (simp_all add: outcome_all_def)

lemma outcome_all_raise_in:
  "P b \<Longrightarrow> (\<And>x. r = Inr x \<Longrightarrow> outcome_all P (f x)) \<Longrightarrow> outcome_all P (raise_in b r f)"
  by (cases r) simp_all

lemma outcome_all_then_do:
  "outcome_all P r \<Longrightarrow> (\<And>s. P s \<Longrightarrow> outcome_all P (f s)) \<Longrightarrow> outcome_all P (then_do r f)"
  by (cases r) auto

lemma logging_seq [simp]: "book_sequence (logging b l s) = book_sequence b"
  by (simp add: logging_def)

lemma set_osize_seq [simp]: "book_sequence (set_osize b a v) = book_sequence b"
  by (simp add: set_osize_def)

lemma seq_set_bids: "book_sequence b = n \<Longrightarrow> outcome_all (\<lambda>s. book_sequence s = n) (set_bids b p l)"
  by (simp add: set_bids_def tree_insert_def)

lemma seq_set_asks: "book_sequence b = n \<Longrightarrow> outcome_all (\<lambda>s. book_sequence s = n) (set_asks b p l)"
  by (simp add: set_asks_def tree_insert_def)

lemma seq_remove_bids: "book_sequence b = n \<Longrightarrow> outcome_all (\<lambda>s. book_sequence s = n) (remove_bids b p)"
  by (simp add: remove_bids_def tree_remove_def)

lemma seq_remove_asks: "book_sequence b = n \<Longrightarrow> outcome_all (\<lambda>s. book_sequence s = n) (remove_asks b p)"
  by (simp add: remove_asks_def tree_remove_def)

lemma seq_on_add: "book_sequence b = n \<Longrightarrow> outcome_all (\<lambda>s. book_sequence s = n) (on_add b a)"
  by (simp add: on_add_def Let_def split: option.splits)

lemma seq_on_remove: "book_sequence b = n \<Longrightarrow> outcome_all (\<lambda>s. book_sequence s = n) (on_remove b a r)"
  by (simp add: on_remove_def Let_def split: option.splits)

lemma seq_on_match: "book_sequence b = n \<Longrightarrow> outcome_all (\<lambda>s. book_sequence s = n) (on_match b)"
  by (auto simp: on_match_def intro!: outcome_all_raise_in)

lemma seq_on_change: "book_sequence b = n \<Longrightarrow> outcome_all (\<lambda>s. book_sequence s = n) (on_change b a)"
  unfolding on_change_def
  by (rule outcome_all_raise_in) (auto split: option.splits list.splits)

lemma seq_on_received: "book_sequence b = n \<Longrightarrow> outcome_all (\<lambda>s. book_sequence s = n) (on_received b a t)"
  by (simp add: on_received_def)

lemma seq_add: "book_sequence b = n \<Longrightarrow> outcome_all (\<lambda>s. book_sequence s = n) (add b a)"
  unfolding add_def
  by (intro outcome_all_then_do seq_on_add)
     (auto intro!: outcome_all_raise_in seq_set_bids seq_set_asks split: option.splits)

lemma seq_remove_order: "book_sequence b = n \<Longrightarrow> outcome_all (\<lambda>s. book_sequence s = n) (remove_order b oid sd p r)"
  unfolding remove_order_def Let_def
  by (auto split: option.splits
       intro!: outcome_all_then_do seq_on_remove outcome_all_raise_in seq_set_bids seq_set_asks
               seq_remove_bids seq_remove_asks)

lemma match_taker_seq [simp]: "book_sequence (match_taker b sz t) = book_sequence b"
  by (simp add: match_taker_def split: option.splits)

lemma seq_match: "book_sequence b = n \<Longrightarrow> outcome_all (\<lambda>s. book_sequence s = n) (match b sd p sz mk tk)"
  unfolding match_def Let_def
  by (auto split: option.splits list.splits
       intro!: outcome_all_then_do seq_on_match outcome_all_raise_in seq_set_bids seq_set_asks)

lemma seq_change: "book_sequence b = n \<Longrightarrow> outcome_all (\<lambda>s. book_sequence s = n) (change b oid os ns)"
  unfolding change_def Let_def
  by (auto split: option.splits intro!: seq_on_change)

lemma seq_received: "book_sequence b = n \<Longrightarrow> outcome_all (\<lambda>s. book_sequence s = n) (received b a t)"
  unfolding received_def by (auto intro!: seq_on_received)

lemma seq_open_branch: "book_sequence b = n \<Longrightarrow> outcome_all (\<lambda>s. book_sequence s = n) (open_branch b m k)"
  unfolding open_branch_def
  by (auto split: option.splits prod.splits simp: new_order_def
       intro!: outcome_all_raise_in seq_add)

lemma seq_done_branch: "book_sequence b = n \<Longrightarrow> outcome_all (\<lambda>s. book_sequence s = n) (done_branch b m)"
  unfolding done_branch_def
  by (auto intro!: outcome_all_raise_in seq_remove_order)

lemma seq_match_branch: "book_sequence b = n \<Longrightarrow> outcome_all (\<lambda>s. book_sequence s = n) (match_branch b m)"
  unfolding match_branch_def
  by (auto intro!: outcome_all_raise_in seq_match)

lemma seq_change_branch: "book_sequence b = n \<Longrightarrow> outcome_all (\<lambda>s. book_sequence s = n) (change_branch b m)"
  unfolding change_branch_def
  by (auto intro!: outcome_all_raise_in seq_change)

lemma seq_received_branch: "book_sequence b = n \<Longrightarrow> outcome_all (\<lambda>s. book_sequence s = n) (received_branch b m k)"
  unfolding received_branch_def
  by (auto split: prod.splits simp: new_order_def intro!: outcome_all_raise_in seq_received)

lemma seq_dispatch: "book_sequence b = n \<Longrightarrow> outcome_all (\<lambda>s. book_sequence s = n) (dispatch b m k ty)"
  unfolding dispatch_def
  by (simp add: seq_open_branch seq_done_branch seq_match_branch seq_change_branch seq_received_branch)

lemma seq_update_order_book:
  assumes "update_order_book b m = Inl (e, b')"
  shows "book_sequence b' = book_sequence b"
proof -
  have d: "book_sequence s = book_sequence b" if "dispatch b m k ty = Inl (x, s)" for k ty x s
    using seq_dispatch[OF refl, of b m k ty] that by simp
  show ?thesis
    using assms d
    by (auto simp: update_order_book_def raise_in_def then_do_def
             split: sum.splits jval.splits if_splits)
qed

section \<open>The sequence cursor\<close>

lemma update_order_book_next:
  "m ''sequence'' = Some (JInt n) \<Longrightarrow> n = book_sequence b + 1 \<Longrightarrow>
   update_order_book b m =
     raise_in b (getitem m ''type'') (\<lambda>ty.
       then_do (dispatch b m n ty) (\<lambda>b1. Inr (b1\<lparr>book_sequence := n\<rparr>)))"
  by (simp add: update_order_book_def getitem_def)

lemma dispatch_ignored:
  "ty \<noteq> JStr ''open'' \<Longrightarrow> ty = JStr ''done'' \<longrightarrow> m ''price'' = None \<Longrightarrow>
   ty \<noteq> JStr ''match'' \<Longrightarrow> ty \<noteq> JStr ''change'' \<Longrightarrow> ty \<noteq> JStr ''received'' \<Longrightarrow>
   dispatch b m n ty = Inr b"
  unfolding dispatch_def by (cases "ty = JStr ''done''") simp_all

lemma update_order_book_ignored:
  "m ''sequence'' = Some (JInt n) \<Longrightarrow> n = book_sequence b + 1 \<Longrightarrow> m ''type'' = Some ty \<Longrightarrow>
   ty \<noteq> JStr ''open'' \<Longrightarrow> ty = JStr ''done'' \<longrightarrow> m ''price'' = None \<Longrightarrow>
   ty \<noteq> JStr ''match'' \<Longrightarrow> ty \<noteq> JStr ''change'' \<Longrightarrow> ty \<noteq> JStr ''received'' \<Longrightarrow>
   update_order_book b m = Inr (b\<lparr>book_sequence := n\<rparr>)"
proof -
  assume a: "m ''sequence'' = Some (JInt n)" "n = book_sequence b + 1" and t: "m ''type'' = Some ty"
    and i: "ty \<noteq> JStr ''open''" "ty = JStr ''done'' \<longrightarrow> m ''price'' = None"
       "ty \<noteq> JStr ''match''" "ty \<noteq> JStr ''change''" "ty \<noteq> JStr ''received''"
  have d: "dispatch b m n ty = Inr b" using i by (rule dispatch_ignored)
  have g: "getitem m ''type'' = Inr ty" using t by (simp add: getitem_def)
  show ?thesis by (simp add: update_order_book_next[of m n b, OF a] g d)
qed

text \<open>
  Claim C10. A message whose sequence is the book's sequence plus one and whose
  processing returns leaves the book's sequence equal to the message's; this covers a
  message of a type outside the five kinds and a \<open>done\<close> without a price, which change
  nothing else. A message whose processing raises leaves the book's sequence as it was.
\<close>

theorem update_order_book_sets_sequence:
  "m ''sequence'' = Some (JInt n) \<Longrightarrow> n = book_sequence b + 1 \<Longrightarrow>
     (\<forall>b'. update_order_book b m = Inr b' \<longrightarrow> book_sequence b' = n) \<and>
     (\<forall>e b'. update_order_book b m = Inl (e, b') \<longrightarrow> book_sequence b' = book_sequence b) \<and>
     (\<forall>ty. m ''type'' = Some ty \<and>
           ty \<notin> {JStr ''open'', JStr ''done'', JStr ''match'', JStr ''change'', JStr ''received''}
           \<longrightarrow> update_order_book b m = Inr (b\<lparr>book_sequence := n\<rparr>)) \<and>
     (m ''type'' = Some (JStr ''done'') \<and> m ''price'' = None
        \<longrightarrow> update_order_book b m = Inr (b\<lparr>book_sequence := n\<rparr>))"
proof (intro conjI allI impI)
  fix b' assume a: "m ''sequence'' = Some (JInt n)" "n = book_sequence b + 1"
    and r: "update_order_book b m = Inr b'"
  show "book_sequence b' = n"
    using r unfolding update_order_book_next[of m n b, OF a]
    by (auto simp: raise_in_def then_do_def split: sum.splits)
next
  fix e b' assume "update_order_book b m = Inl (e, b')"
  then show "book_sequence b' = book_sequence b" by (rule seq_update_order_book)
next
  fix ty assume a: "m ''sequence'' = Some (JInt n)" "n = book_sequence b + 1"
    and t: "m ''type'' = Some ty \<and>
           ty \<notin> {JStr ''open'', JStr ''done'', JStr ''match'', JStr ''change'', JStr ''received''}"
  show "update_order_book b m = Inr (b\<lparr>book_sequence := n\<rparr>)"
    using t by (intro update_order_book_ignored[of m n b ty, OF a]) auto
next
  assume a: "m ''sequence'' = Some (JInt n)" "n = book_sequence b + 1"
    and t: "m ''type'' = Some (JStr ''done'') \<and> m ''price'' = None"
  show "update_order_book b m = Inr (b\<lparr>book_sequence := n\<rparr>)"
    using t by (intro update_order_book_ignored[of m n b "JStr ''done''", OF a]) auto
qed

theorem update_order_book_sets_sequence_witness:
  "update_order_book (OrderBook (JStr ''ETH-USD''))
     [''sequence'' \<mapsto> JInt 0, ''type'' \<mapsto> JStr ''heartbeat'']
     = Inr ((OrderBook (JStr ''ETH-USD''))\<lparr>book_sequence := 0\<rparr>) \<and>
   update_order_book (OrderBook (JStr ''ETH-USD''))
     [''sequence'' \<mapsto> JInt 0, ''type'' \<mapsto> JStr ''done'', ''order_id'' \<mapsto> JStr ''T'']
     = Inr ((OrderBook (JStr ''ETH-USD''))\<lparr>book_sequence := 0\<rparr>) \<and>
   update_order_book (OrderBook (JStr ''ETH-USD''))
     [''sequence'' \<mapsto> JInt 0, ''type'' \<mapsto> JStr ''open'']
     = Inl (KeyError, OrderBook (JStr ''ETH-USD''))"
proof -
  let ?B = "OrderBook (JStr ''ETH-USD'')"
  let ?m1 = "[''sequence'' \<mapsto> JInt 0, ''type'' \<mapsto> JStr ''heartbeat'']"
  let ?m2 = "[''sequence'' \<mapsto> JInt 0, ''type'' \<mapsto> JStr ''done'', ''order_id'' \<mapsto> JStr ''T'']"
  have s: "(0::int) = book_sequence ?B + 1" by (simp add: OrderBook_def)
  have p1: "?m1 ''sequence'' = Some (JInt 0)" by simp
  have p2: "?m2 ''sequence'' = Some (JInt 0)" by simp
  have t1: "?m1 ''type'' = Some (JStr ''heartbeat'') \<and>
        JStr ''heartbeat'' \<notin> {JStr ''open'', JStr ''done'', JStr ''match'', JStr ''change'',
                                JStr ''received''}" by simp
  have t2: "?m2 ''type'' = Some (JStr ''done'') \<and> ?m2 ''price'' = None" by simp
  note w1 = update_order_book_sets_sequence[of ?m1 0 ?B, OF p1 s]
  note w2 = update_order_book_sets_sequence[of ?m2 0 ?B, OF p2 s]
  have 1: "update_order_book ?B ?m1 = Inr (?B\<lparr>book_sequence := 0\<rparr>)"
    using w1[THEN conjunct2, THEN conjunct2, THEN conjunct1, rule_format, OF t1] .
  have 2: "update_order_book ?B ?m2 = Inr (?B\<lparr>book_sequence := 0\<rparr>)"
    using w2[THEN conjunct2, THEN conjunct2, THEN conjunct2, rule_format, OF t2] .
  have 3: "update_order_book ?B [''sequence'' \<mapsto> JInt 0, ''type'' \<mapsto> JStr ''open'']
            = Inl (KeyError, ?B)"
    by (simp add: update_order_book_def getitem_def dispatch_def open_branch_def OrderBook_def)
  show ?thesis using 1 2 3 by blast
qed

section \<open>Evaluating the concrete inputs\<close>

lemmas decimal_eval = Decimal_def decimal_of_string_def unsigned_decimal_def digit_of_def

lemma strptime_stamp: "strptime (JStr stamp) = Inr stamp"
  by (simp add: strptime_def time_format_ok_def number_in_def day_number_def
        days_in_month_def digit_of_def stamp_def)

lemmas time_eval = strptime_stamp

text \<open>
  Three readings of \<open>strptime\<close>: a month 13 and a 30th of February raise ValueError, a
  fraction of three digits is read.
\<close>

lemma strptime_examples:
  "strptime (JStr ''2014-13-07T08:19:27.028459Z'') = Inl ValueError"
  "strptime (JStr ''2014-02-30T08:19:27.028459Z'') = Inl ValueError"
  "strptime (JStr ''2014-11-07T08:19:27.028Z'') = Inr ''2014-11-07T08:19:27.028Z''"
  by (simp_all add: strptime_def time_format_ok_def number_in_def day_number_def
        days_in_month_def digit_of_def)

lemma snapshot_300_applied:
  "on_order_book_snapshot (OrderBook ETH) (Some snapshot_300) = Inr book_300"
  by (simp add: on_order_book_snapshot_def apply_order_book_snapshot_def OrderBook_def
        snapshot_300_def book_300_def logging_def Let_def)

lemma received_T_applied:
  "book_sequence b + 1 = n \<Longrightarrow> update_order_book b (received_T n) =
     Inr ((logging (b\<lparr>objs := objs b @ [order_T n],
                      order_id_to_unreflected_order :=
                        (order_id_to_unreflected_order b)(JStr ''T'' \<mapsto> length (objs b))\<rparr>)
             DEBUG ''Received'')\<lparr>book_sequence := n\<rparr>)"
  by (simp add: update_order_book_def getitem_def received_T_def dispatch_def received_branch_def
        received_terms_def decimal_eval time_eval get_default_def raw_funds_def side_of_def
        new_order_def received_def on_received_def order_T_def ETH_def)

lemma book_301_reached: "on_message book_300 (received_T 301) = Inr book_301"
  by (simp add: on_message_def received_T_applied book_301_def book_300_def logging_def)

section \<open>Gaps in the sequence\<close>

lemma update_order_book_gap:
  "m ''sequence'' = Some (JInt n) \<Longrightarrow> book_sequence b + 1 < n \<Longrightarrow>
   update_order_book b m = Inl (Exception n (book_sequence b), b)"
  by (simp add: update_order_book_def getitem_def)

lemma manager_on_message_live:
  "m ''product_id'' = Some pid \<Longrightarrow> product_id_to_order_book mg pid = Some b \<Longrightarrow>
   snapshots b \<noteq> [] \<Longrightarrow> \<not> pending_order_book_snapshot b \<Longrightarrow>
   manager_on_message mg m =
     (case update_order_book b m of
        Inl (e, b1) \<Rightarrow> Inl (e, mg\<lparr>product_id_to_order_book :=
                                   (product_id_to_order_book mg)(pid \<mapsto> b1)\<rparr>)
      | Inr b1 \<Rightarrow> Inr (mg\<lparr>product_id_to_order_book :=
                            (product_id_to_order_book mg)(pid \<mapsto> b1)\<rparr>))"
  by (simp add: manager_on_message_def getitem_def get_order_book_def on_message_def)

lemma manager_same_book:
  "product_id_to_order_book mg pid = Some b \<Longrightarrow>
   mg\<lparr>product_id_to_order_book := (product_id_to_order_book mg)(pid \<mapsto> b)\<rparr> = mg"
  by (simp add: fun_upd_idem)

text \<open>
  Claim C2, as the code has it. In a book in Live mode (no snapshot pending) an event
  whose sequence is beyond the book's sequence plus one makes \<open>on_message\<close> raise an
  exception that carries the sequence received and the book's own, and the book that
  the exception leaves is the book as it was: it is still in Live mode, it has the same
  sequence, and nothing records that it is invalid. So that book refuses nothing: the
  next event whose sequence is the book's sequence plus one goes to the branch of its
  type, and when the branch returns, the result is the branch's book with the sequence
  advanced. Routed through the manager to a registered book in Live mode (a snapshot
  taken, none pending) the same exception comes out and the manager is unchanged: no
  snapshot is requested again.
\<close>

theorem gap_raises_and_keeps_book:
  "\<not> pending_order_book_snapshot b \<Longrightarrow> m ''sequence'' = Some (JInt n) \<Longrightarrow>
   book_sequence b + 1 < n \<Longrightarrow>
     on_message b m = Inl (Exception n (book_sequence b), b) \<and>
     (\<forall>e b1. on_message b m = Inl (e, b1) \<longrightarrow>
        b1 = b \<and> \<not> pending_order_book_snapshot b1 \<and> book_sequence b1 = book_sequence b \<and>
        (\<forall>m' ty s. m' ''sequence'' = Some (JInt (book_sequence b + 1)) \<and> m' ''type'' = Some ty \<and>
             dispatch b1 m' (book_sequence b + 1) ty = Inr s
           \<longrightarrow> on_message b1 m' = Inr (s\<lparr>book_sequence := book_sequence b + 1\<rparr>))) \<and>
     (\<forall>mg pid. m ''product_id'' = Some pid \<and> product_id_to_order_book mg pid = Some b \<and>
         snapshots b \<noteq> []
         \<longrightarrow> manager_on_message mg m = Inl (Exception n (book_sequence b), mg))"
proof -
  assume l: "\<not> pending_order_book_snapshot b" and s: "m ''sequence'' = Some (JInt n)"
    and g: "book_sequence b + 1 < n"
  have 1: "on_message b m = Inl (Exception n (book_sequence b), b)"
    using l update_order_book_gap[of m n b, OF s g] by (simp add: on_message_def)
  have 2: "on_message b m' = Inr (s'\<lparr>book_sequence := book_sequence b + 1\<rparr>)"
    if "m' ''sequence'' = Some (JInt (book_sequence b + 1))" "m' ''type'' = Some ty"
      "dispatch b m' (book_sequence b + 1) ty = Inr s'" for m' ty s'
    using l that update_order_book_next[of m' "book_sequence b + 1" b]
    by (simp add: on_message_def getitem_def)
  have 3: "manager_on_message mg m = Inl (Exception n (book_sequence b), mg)"
    if "m ''product_id'' = Some pid" "product_id_to_order_book mg pid = Some b"
      "snapshots b \<noteq> []" for mg pid
    using that l update_order_book_gap[of m n b, OF s g] manager_same_book[of mg pid b]
    by (simp add: manager_on_message_live[of m pid mg b])
  show ?thesis using 1 2 3 l by simp
qed

theorem gap_raises_and_keeps_book_witness:
  "\<not> pending_order_book_snapshot book_300 \<and>
   received_T 302 ''sequence'' = Some (JInt 302) \<and> book_sequence book_300 + 1 < 302 \<and>
   on_message book_300 (received_T 302) = Inl (Exception 302 300, book_300) \<and>
   on_message book_300 (received_T 301) = Inr book_301 \<and>
   manager_on_message manager_300 (received_T 302) = Inl (Exception 302 300, manager_300)"
proof -
  have l: "\<not> pending_order_book_snapshot book_300" by (simp add: book_300_def)
  have p: "received_T 302 ''sequence'' = Some (JInt 302)" by (simp add: received_T_def)
  have q: "book_sequence book_300 + 1 < 302" by (simp add: book_300_def)
  have s: "book_sequence book_300 = 300" by (simp add: book_300_def)
  note w = gap_raises_and_keeps_book[of book_300 "received_T 302" 302, OF l p q]
  have g: "on_message book_300 (received_T 302) = Inl (Exception 302 300, book_300)"
    using w[THEN conjunct1] unfolding s .
  have d: "received_T 301 ''sequence'' = Some (JInt (book_sequence book_300 + 1)) \<and>
           received_T 301 ''type'' = Some (JStr ''received'') \<and>
           dispatch book_300 (received_T 301) (book_sequence book_300 + 1) (JStr ''received'')
             = Inr (book_301\<lparr>book_sequence := 300\<rparr>)"
    by (simp add: received_T_def dispatch_def received_branch_def getitem_def
          received_terms_def decimal_eval time_eval get_default_def raw_funds_def side_of_def
          new_order_def received_def on_received_def order_T_def ETH_def book_300_def
          book_301_def logging_def)
  have n: "on_message book_300 (received_T 301) = Inr book_301"
    using w[THEN conjunct2, THEN conjunct1, rule_format, OF g, THEN conjunct2,
            THEN conjunct2, THEN conjunct2, rule_format, OF d]
    by (simp add: s book_301_def)
  have r: "received_T 302 ''product_id'' = Some ETH \<and>
           product_id_to_order_book manager_300 ETH = Some book_300 \<and>
           snapshots book_300 \<noteq> []"
    by (simp add: received_T_def manager_300_def book_300_def)
  show ?thesis
    using l p q g n w[THEN conjunct2, THEN conjunct2, rule_format, OF r] unfolding s by simp
qed

text \<open>
  The claim as stated fails: after the gap at 302 the book is the one it was and
  carries no mark, the event 301 is still taken by the same book, and the manager is
  the one it was, its list of snapshot requests included.
\<close>

theorem gap_does_not_invalidate_book:
  "on_order_book_snapshot (OrderBook ETH) (Some snapshot_300) = Inr book_300 \<and>
   on_message book_300 (received_T 302) = Inl (Exception 302 300, book_300) \<and>
   on_message book_300 (received_T 301) = Inr book_301 \<and>
   manager_on_message manager_300 (received_T 302) = Inl (Exception 302 300, manager_300)"
proof -
  have p: "received_T 302 ''sequence'' = Some (JInt 302)" by (simp add: received_T_def)
  have q: "book_sequence book_300 + 1 < 302" by (simp add: book_300_def)
  have s: "book_sequence book_300 = 300" by (simp add: book_300_def)
  have g: "update_order_book book_300 (received_T 302) = Inl (Exception 302 300, book_300)"
    using update_order_book_gap[of "received_T 302" 302 book_300, OF p q] unfolding s .
  have n: "\<not> pending_order_book_snapshot book_300" by (simp add: book_300_def)
  have 1: "on_message book_300 (received_T 302) = Inl (Exception 302 300, book_300)"
    using g n by (simp add: on_message_def)
  have 2: "manager_on_message manager_300 (received_T 302) = Inl (Exception 302 300, manager_300)"
    using g manager_same_book[of manager_300 ETH book_300]
    by (subst manager_on_message_live[of _ ETH _ book_300])
       (simp_all add: received_T_def manager_300_def book_300_def)
  show ?thesis using snapshot_300_applied 1 book_301_reached 2 by simp
qed

section \<open>A done without a price\<close>

text \<open>
  Claim C5, as the code has it. The \<open>done\<close> branch is guarded by \<open>'price' in message\<close>,
  so in Live mode a \<open>done\<close> that carries no price, at the book's sequence plus one,
  changes nothing but the sequence: a pending entry under its order id stays where it
  is, and no ladder is touched.
\<close>

theorem done_without_price_only_advances:
  "m ''sequence'' = Some (JInt n) \<Longrightarrow> n = book_sequence b + 1 \<Longrightarrow>
   m ''type'' = Some (JStr ''done'') \<Longrightarrow> m ''price'' = None \<Longrightarrow>
   \<not> pending_order_book_snapshot b \<Longrightarrow>
     on_message b m = Inr (b\<lparr>book_sequence := n\<rparr>)"
  by (simp add: on_message_def update_order_book_ignored[of m n b "JStr ''done''"])

theorem done_without_price_only_advances_witness:
  "on_message book_301 (done_T_no_price 302) = Inr (book_301\<lparr>book_sequence := 302\<rparr>)"
  by (rule done_without_price_only_advances)
     (simp_all add: done_T_no_price_def book_301_def book_300_def)

text \<open>
  The claim as stated fails: \<open>T\<close> is pending in \<open>book_301\<close>, its \<open>done\<close> without a price
  is applied at sequence 302, and \<open>T\<close> is still pending afterwards.
\<close>

theorem done_without_price_keeps_pending:
  "on_message book_300 (received_T 301) = Inr book_301 \<and>
   order_id_to_unreflected_order book_301 (JStr ''T'') = Some 0 \<and>
   on_message book_301 (done_T_no_price 302) = Inr (book_301\<lparr>book_sequence := 302\<rparr>) \<and>
   order_id_to_unreflected_order (book_301\<lparr>book_sequence := 302\<rparr>) (JStr ''T'') = Some 0"
proof -
  have "update_order_book book_301 (done_T_no_price 302) = Inr (book_301\<lparr>book_sequence := 302\<rparr>)"
    by (rule update_order_book_ignored[of _ _ _ "JStr ''done''"])
       (simp_all add: done_T_no_price_def book_301_def book_300_def)
  then have "on_message book_301 (done_T_no_price 302) = Inr (book_301\<lparr>book_sequence := 302\<rparr>)"
    by (simp add: on_message_def book_301_def book_300_def)
  then show ?thesis using book_301_reached by (simp add: book_301_def)
qed

section \<open>Events for a product without a book\<close>

text \<open>
  Claim C9, as the code has it. An event for a product that has no book is dropped with
  a warning: the manager creates no book and requests no snapshot. A book exists only
  after \<open>init_order_book\<close>; the first event routed to such a book, which has neither a
  snapshot nor a pending request, makes the manager request the snapshot, and the event
  is put on the book's queue.
\<close>

theorem manager_drops_unregistered_product:
  "m ''product_id'' = Some pid \<Longrightarrow>
     (product_id_to_order_book mg pid = None \<longrightarrow>
        manager_on_message mg m =
          Inr (mg\<lparr>mgr_logs := mgr_logs mg
                     @ [(WARNING, ''Received message for unregistered product'')]\<rparr>)) \<and>
     (product_id_to_order_book mg pid = None \<and> ws_connected mg \<longrightarrow>
        init_order_book mg pid =
          Inr (mg\<lparr>product_id_to_order_book := (product_id_to_order_book mg)(pid \<mapsto> OrderBook pid),
                  ws_written := ws_written mg @ [pid],
                  mgr_logs := mgr_logs mg @ [(DEBUG, ''Subscribing to WS'')]\<rparr>)) \<and>
     (\<forall>ob. product_id_to_order_book mg pid = Some ob \<and> snapshots ob = [] \<and>
            \<not> pending_order_book_snapshot ob \<longrightarrow>
        manager_on_message mg m =
          Inr ((fetch_order_book_snapshot mg pid ob)
                 \<lparr>product_id_to_order_book :=
                    (product_id_to_order_book mg)
                      (pid \<mapsto> (set_pending_order_book_snapshot ob)
                                 \<lparr>message_queue := message_queue ob @ [m]\<rparr>)\<rparr>))"
  by (simp add: manager_on_message_def getitem_def get_order_book_def on_message_def
        fetch_order_book_snapshot_def set_pending_order_book_snapshot_def logging_def
        init_order_book_def subscribe_def)

theorem manager_drops_unregistered_product_witness:
  "manager_on_message manager_0 (received_T 0) =
     Inr (manager_0\<lparr>mgr_logs := [(WARNING, ''Received message for unregistered product'')]\<rparr>) \<and>
   init_order_book manager_0 ETH = Inr manager_1 \<and>
   manager_on_message manager_1 (received_T 0) =
     Inr (manager_1
            \<lparr>product_id_to_order_book :=
               [ETH \<mapsto> (OrderBook ETH)
                          \<lparr>pending_order_book_snapshot := True,
                           message_queue := [received_T 0],
                           logs := [(DEBUG, ''Pending order book snapshot'')]\<rparr>],
             requests := [ETH],
             mgr_logs := [(DEBUG, ''Subscribing to WS''),
                          (INFO, ''Requesting Order Book Snapshot'')]\<rparr>)"
proof -
  have p: "received_T 0 ''product_id'' = Some ETH" by (simp add: received_T_def)
  note w0 = manager_drops_unregistered_product[of "received_T 0" ETH manager_0, OF p]
  note w1 = manager_drops_unregistered_product[of "received_T 0" ETH manager_1, OF p]
  have a: "product_id_to_order_book manager_0 ETH = None" by (simp add: manager_0_def)
  have b: "product_id_to_order_book manager_0 ETH = None \<and> ws_connected manager_0"
    by (simp add: manager_0_def)
  have c: "product_id_to_order_book manager_1 ETH = Some (OrderBook ETH) \<and>
           snapshots (OrderBook ETH) = [] \<and> \<not> pending_order_book_snapshot (OrderBook ETH)"
    by (simp add: manager_1_def OrderBook_def)
  have 1: "manager_on_message manager_0 (received_T 0) =
     Inr (manager_0\<lparr>mgr_logs := [(WARNING, ''Received message for unregistered product'')]\<rparr>)"
    using w0[THEN conjunct1, rule_format, OF a] by (simp add: manager_0_def)
  have 2: "init_order_book manager_0 ETH = Inr manager_1"
    using w0[THEN conjunct2, THEN conjunct1, rule_format, OF b]
    by (simp add: manager_0_def manager_1_def)
  have 3: "manager_on_message manager_1 (received_T 0) =
     Inr (manager_1
            \<lparr>product_id_to_order_book :=
               [ETH \<mapsto> (OrderBook ETH)
                          \<lparr>pending_order_book_snapshot := True,
                           message_queue := [received_T 0],
                           logs := [(DEBUG, ''Pending order book snapshot'')]\<rparr>],
             requests := [ETH],
             mgr_logs := [(DEBUG, ''Subscribing to WS''),
                          (INFO, ''Requesting Order Book Snapshot'')]\<rparr>)"
    using w1[THEN conjunct2, THEN conjunct2, rule_format, OF c]
    by (simp add: manager_1_def fetch_order_book_snapshot_def
          set_pending_order_book_snapshot_def logging_def OrderBook_def)
  show ?thesis using 1 2 3 by blast
qed

text \<open>
  The claim as stated fails: the manager without books gets an event for \<open>ETH-USD\<close>;
  afterwards it still has no book for the product and has requested no snapshot.
\<close>

theorem unregistered_product_creates_no_book:
  "manager_on_message manager_0 (received_T 0) =
     Inr (manager_0\<lparr>mgr_logs := [(WARNING, ''Received message for unregistered product'')]\<rparr>) \<and>
   product_id_to_order_book
     (manager_0\<lparr>mgr_logs := [(WARNING, ''Received message for unregistered product'')]\<rparr>) ETH
     = None \<and>
   requests (manager_0\<lparr>mgr_logs := [(WARNING, ''Received message for unregistered product'')]\<rparr>)
     = []"
  by (simp add: manager_on_message_def getitem_def get_order_book_def received_T_def
        manager_0_def)

lemmas snapshot_eval = on_order_book_snapshot_def apply_order_book_snapshot_def OrderBook_def
      parse_snapshot_order_def row_get_def decimal_eval new_order_def add_def
      get_bids_def get_asks_def set_bids_def set_asks_def tree_get_def tree_insert_def comparable_def
      on_add_def logging_def LARGE_THRESHOLD_def Let_def
lemmas match_eval = update_order_book_def getitem_def dispatch_def match_branch_def
      decimal_eval time_eval side_of_def match_def match_taker_def set_osize_def Side_eq_str_def
      get_bids_def get_asks_def set_bids_def set_asks_def tree_get_def tree_insert_def comparable_def
      logging_def on_match_def get_bid_def get_ask_def min_key_def max_key_def Let_def

lemma S2_step0: "on_order_book_snapshot (OrderBook ETH) (Some snapshot_S2) = Inr book_S2_200"
  by (simp add: snapshot_eval snapshot_S2_def book_S2_200_def book_S2_def order_B_def ETH_def)

lemma S2_step1: "on_message book_S2_200 (received_T 201) = Inr book_S2_201"
  by (simp add: on_message_def received_T_applied book_S2_200_def book_S2_201_def book_S2_def
        logging_def)

lemma S2_step2: "on_message book_S2_201 match_B_T = Inr book_S2_202"
  by (simp add: on_message_def book_S2_201_def book_S2_202_def book_S2_def order_B_def order_T_def
        match_B_T_def match_eval)

lemma S2_step3: "on_message book_S2_202 done_T = Inr book_S2"
  by (simp add: on_message_def book_S2_202_def book_S2_def order_B_def order_T_def done_T_def
        update_order_book_def getitem_def dispatch_def done_branch_def decimal_eval time_eval
        side_of_def remove_order_def logging_def)

lemma run_S2_value: "run_S2 = Inr book_S2"
  by (simp add: run_S2_def S2_step0 S2_step1 S2_step2 S2_step3)

lemma snapshot_400_applied:
  "on_order_book_snapshot (OrderBook ETH) (Some snapshot_400) = Inr book_400"
  by (simp add: snapshot_eval snapshot_400_def book_400_def order_400_def ETH_def)

lemma match_A_applied: "on_message book_400 (match_maker ''A'') = Inr book_401"
  by (simp add: on_message_def book_400_def book_401_def order_400_def match_maker_def match_eval)

section \<open>Events that disagree with the book\<close>

lemma update_order_book_done:
  assumes "is_done m n oid sd p r" "n = book_sequence b + 1"
  shows "update_order_book b m =
           then_do (remove_order b oid sd p r) (\<lambda>b1. Inr (b1\<lparr>book_sequence := n\<rparr>))"
  using assms
  by (auto simp: is_done_def field_decimal_def field_time_def field_side_def
        update_order_book_def getitem_def dispatch_def done_branch_def
        split: option.splits sum.splits)

lemma update_order_book_match:
  assumes "is_match m n mk tk sd p sz" "n = book_sequence b + 1"
  shows "update_order_book b m =
           then_do (match b sd p sz mk tk) (\<lambda>b1. Inr (b1\<lparr>book_sequence := n\<rparr>))"
  using assms
  by (auto simp: is_match_def field_decimal_def field_time_def field_side_def
        update_order_book_def getitem_def dispatch_def match_branch_def
        split: option.splits sum.splits)

lemma update_order_book_change:
  assumes "is_change m n oid old new" "n = book_sequence b + 1"
  shows "update_order_book b m =
           then_do (change b oid old new) (\<lambda>b1. Inr (b1\<lparr>book_sequence := n\<rparr>))"
  using assms
  by (auto simp: is_change_def field_decimal_def field_time_def field_side_def
        update_order_book_def getitem_def dispatch_def change_branch_def
        split: option.splits sum.splits)


lemma set_osize_order_id [simp]: "order_id (objs (set_osize b i v) ! j) = order_id (objs b ! j)"
  by (cases "i < length (objs b)"; cases "i = j") (simp_all add: set_osize_def list_update_beyond)

lemma set_osize_frame [simp]:
  "asks (set_osize b i v) = asks b" "bids (set_osize b i v) = bids b"
  "logs (set_osize b i v) = logs b"
  "order_id_to_order (set_osize b i v) = order_id_to_order b"
  "order_id_to_unreflected_order (set_osize b i v) = order_id_to_unreflected_order b"
  by (simp_all add: set_osize_def)

lemma logging_frame [simp]:
  "asks (logging b l s) = asks b" "bids (logging b l s) = bids b"
  "objs (logging b l s) = objs b"
  "order_id_to_order (logging b l s) = order_id_to_order b"
  "order_id_to_unreflected_order (logging b l s) = order_id_to_unreflected_order b"
  by (simp_all add: logging_def)

lemma match_taker_frame [simp]:
  "asks (match_taker b sz tk) = asks b" "bids (match_taker b sz tk) = bids b"
  "order_id_to_order (match_taker b sz tk) = order_id_to_order b"
  "order_id (objs (match_taker b sz tk) ! j) = order_id (objs b ! j)"
  by (simp_all add: match_taker_def split: option.splits)

section \<open>The maker side of a match\<close>

text \<open>
  Claim C1, evaluated. Scenario S2 runs to the end and leaves the book \<open>book_S2\<close>: \<open>T\<close>
  is no longer pending, \<open>B\<close> is the only resting order, the sequence is 203; but \<open>B\<close>
  still has size 2, not 1.5. The match carries the side \<open>buy\<close>; \<open>match\<close> compares the
  \<open>Side\<close> value with the string \<open>'buy'\<close>, which is never equal, looks in the asks, finds
  no level at 10.00 and returns.
\<close>

theorem S2_maker_keeps_full_size:
  "run_S2 = Inr book_S2 \<and> bids book_S2 = [(Some 10, [0])] \<and>
   order_id (objs book_S2 ! 0) = JStr ''B'' \<and> osize (objs book_S2 ! 0) = Some 2 \<and>
   osize (objs book_S2 ! 0) \<noteq> Some (3 / 2) \<and>
   order_id_to_unreflected_order book_S2 (JStr ''T'') = None \<and>
   dom (order_id_to_order book_S2) = {JStr ''B''} \<and> book_sequence book_S2 = 203"
  using run_S2_value by (simp add: book_S2_def order_B_def)

text \<open>
  Claim C3, evaluated. In \<open>book_400\<close> the order \<open>A\<close> of size 1.5 is alone at 10.00 on
  the asks. The sell-side match of size 1.5 against \<open>A\<close> is applied, and afterwards the
  asks tree still has the key 10.00, with the empty list: \<open>match\<close> stores \<open>asks[1:]\<close>
  whatever its length, where \<open>remove\<close> deletes the key of a level that has become empty.
\<close>

theorem full_fill_leaves_empty_level:
  "on_order_book_snapshot (OrderBook ETH) (Some snapshot_400) = Inr book_400 \<and>
   map_of (asks book_400) (Some 10) = Some [1] \<and>
   on_message book_400 (match_maker ''A'') = Inr book_401 \<and>
   map_of (asks book_401) (Some 10) = Some []"
  using snapshot_400_applied match_A_applied by (simp add: book_400_def book_401_def)

section \<open>The queue and the pending flag are a frame of every method\<close>

lemma map_outcome_simps [simp]:
  "map_outcome g (Inl (e, b)) = Inl (e, g b)" "map_outcome g (Inr b) = Inr (g b)"
  by (simp_all add: map_outcome_def)

lemma buffering_fields [simp]:
  "asks (buffering q f b) = asks b" "bids (buffering q f b) = bids b"
  "objs (buffering q f b) = objs b" "logs (buffering q f b) = logs b"
  "order_id_to_order (buffering q f b) = order_id_to_order b"
  "order_id_to_unreflected_order (buffering q f b) = order_id_to_unreflected_order b"
  "book_sequence (buffering q f b) = book_sequence b"
  "book_product_id (buffering q f b) = book_product_id b"
  "snapshots (buffering q f b) = snapshots b"
  "message_queue (buffering q f b) = q" "pending_order_book_snapshot (buffering q f b) = f"
  by (simp_all add: buffering_def)

lemma buffering_commutes:
  "(buffering q f b)\<lparr>asks := t\<rparr> = buffering q f (b\<lparr>asks := t\<rparr>)"
  "(buffering q f b)\<lparr>bids := t\<rparr> = buffering q f (b\<lparr>bids := t\<rparr>)"
  "(buffering q f b)\<lparr>objs := h\<rparr> = buffering q f (b\<lparr>objs := h\<rparr>)"
  "(buffering q f b)\<lparr>order_id_to_order := d\<rparr> = buffering q f (b\<lparr>order_id_to_order := d\<rparr>)"
  "(buffering q f b)\<lparr>order_id_to_unreflected_order := d\<rparr>
     = buffering q f (b\<lparr>order_id_to_unreflected_order := d\<rparr>)"
  "(buffering q f b)\<lparr>book_sequence := n\<rparr> = buffering q f (b\<lparr>book_sequence := n\<rparr>)"
  "logging (buffering q f b) l s = buffering q f (logging b l s)"
  "set_osize (buffering q f b) a v = buffering q f (set_osize b a v)"
  by (simp_all add: buffering_def logging_def set_osize_def)

lemma buffering_raise_in:
  "(\<And>x. F x = map_outcome (buffering q f) (G x)) \<Longrightarrow>
   raise_in (buffering q f b) r F = map_outcome (buffering q f) (raise_in b r G)"
  by (cases r) simp_all

lemma buffering_then_do:
  "r = map_outcome (buffering q f) r' \<Longrightarrow>
   (\<And>s. F (buffering q f s) = map_outcome (buffering q f) (G s)) \<Longrightarrow>
   then_do r F = map_outcome (buffering q f) (then_do r' G)"
  by (cases r') auto

lemma buffering_trees:
  "set_bids (buffering q f b) p l = map_outcome (buffering q f) (set_bids b p l)"
  "set_asks (buffering q f b) p l = map_outcome (buffering q f) (set_asks b p l)"
  "remove_bids (buffering q f b) p = map_outcome (buffering q f) (remove_bids b p)"
  "remove_asks (buffering q f b) p = map_outcome (buffering q f) (remove_asks b p)"
  "get_bids (buffering q f b) p = get_bids b p" "get_asks (buffering q f b) p = get_asks b p"
  "get_bid (buffering q f b) = get_bid b" "get_ask (buffering q f b) = get_ask b"
  by (simp_all add: set_bids_def set_asks_def remove_bids_def remove_asks_def get_bids_def
        get_asks_def get_bid_def get_ask_def buffering_commutes
        buffering_raise_in[where G = "\<lambda>t. Inr (b\<lparr>bids := t\<rparr>)"]
        buffering_raise_in[where G = "\<lambda>t. Inr (b\<lparr>asks := t\<rparr>)"])

lemma buffering_hooks:
  "on_add (buffering q f b) a = map_outcome (buffering q f) (on_add b a)"
  "on_remove (buffering q f b) a r = map_outcome (buffering q f) (on_remove b a r)"
  "on_received (buffering q f b) a t = map_outcome (buffering q f) (on_received b a t)"
  by (simp_all add: on_add_def on_remove_def on_received_def Let_def buffering_commutes
        split: option.splits)

lemma buffering_on_match:
  "on_match (buffering q f b) = map_outcome (buffering q f) (on_match b)"
  by (simp add: on_match_def buffering_trees buffering_commutes raise_in_def split: sum.splits)

lemma buffering_on_change:
  "on_change (buffering q f b) a = map_outcome (buffering q f) (on_change b a)"
  by (simp add: on_change_def buffering_trees buffering_commutes raise_in_def
        split: sum.splits option.splits list.splits)


lemma buffering_if:
  "(c \<Longrightarrow> A = map_outcome g A') \<Longrightarrow> (\<not> c \<Longrightarrow> B = map_outcome g B') \<Longrightarrow>
   (if c then A else B) = map_outcome g (if c then A' else B')"
  by simp

lemma buffering_case_option:
  "(x = None \<Longrightarrow> A = map_outcome g A') \<Longrightarrow> (\<And>y. x = Some y \<Longrightarrow> B y = map_outcome g (B' y)) \<Longrightarrow>
   (case x of None \<Rightarrow> A | Some y \<Rightarrow> B y) = map_outcome g (case x of None \<Rightarrow> A' | Some y \<Rightarrow> B' y)"
  by (cases x) simp_all

lemma buffering_case_list:
  "(x = [] \<Longrightarrow> A = map_outcome g A') \<Longrightarrow>
   (\<And>y ys. x = y # ys \<Longrightarrow> B y ys = map_outcome g (B' y ys)) \<Longrightarrow>
   (case x of [] \<Rightarrow> A | y # ys \<Rightarrow> B y ys) = map_outcome g (case x of [] \<Rightarrow> A' | y # ys \<Rightarrow> B' y ys)"
  by (cases x) simp_all

lemma buffering_case_prod:
  "(\<And>y z. x = (y, z) \<Longrightarrow> B y z = map_outcome g (B' y z)) \<Longrightarrow>
   (case x of (y, z) \<Rightarrow> B y z) = map_outcome g (case x of (y, z) \<Rightarrow> B' y z)"
  by (cases x) simp

lemmas buffering_intros =
  buffering_raise_in buffering_then_do buffering_if buffering_case_option buffering_case_list
  buffering_case_prod

lemma buffering_add: "add (buffering q f b) a = map_outcome (buffering q f) (add b a)"
  unfolding add_def
  apply (simp only: buffering_fields buffering_trees(5-8))
  apply (intro buffering_intros)
  apply (simp_all add: buffering_trees buffering_hooks buffering_commutes)
  done

lemma buffering_remove_order:
  "remove_order (buffering q f b) oid sd p r = map_outcome (buffering q f) (remove_order b oid sd p r)"
  unfolding remove_order_def Let_def
  apply (simp only: buffering_fields buffering_trees(5-8) buffering_commutes
           if_distrib[of "buffering q f", symmetric])
  apply (intro buffering_intros)
  apply (simp_all add: buffering_trees buffering_hooks buffering_commutes)
  done

lemma buffering_match_taker:
  "match_taker (buffering q f b) sz tk = buffering q f (match_taker b sz tk)"
  by (simp add: match_taker_def buffering_commutes split: option.splits)

lemma buffering_match:
  "match (buffering q f b) sd p sz mk tk = map_outcome (buffering q f) (match b sd p sz mk tk)"
  unfolding match_def Let_def
  apply (simp only: buffering_fields buffering_trees(5-8) buffering_commutes buffering_match_taker
           option.case_distrib[of "buffering q f", symmetric])
  apply (intro buffering_intros)
  apply (simp_all add: buffering_trees buffering_on_match buffering_commutes)
  done

lemma buffering_change:
  "change (buffering q f b) oid old new = map_outcome (buffering q f) (change b oid old new)"
  by (simp add: change_def Let_def buffering_on_change buffering_commutes split: option.splits)

lemma buffering_received:
  "received (buffering q f b) a t = map_outcome (buffering q f) (received b a t)"
  by (simp add: received_def buffering_hooks buffering_commutes)

lemma buffering_open_branch:
  "open_branch (buffering q f b) m n = map_outcome (buffering q f) (open_branch b m n)"
  unfolding open_branch_def new_order_def prod.case
  apply (simp only: buffering_fields buffering_commutes)
  apply (intro buffering_intros)
  apply (simp_all add: buffering_add buffering_commutes)
  done

lemma buffering_done_branch:
  "done_branch (buffering q f b) m = map_outcome (buffering q f) (done_branch b m)"
  unfolding done_branch_def
  by (intro buffering_intros) (simp add: buffering_remove_order)

lemma buffering_match_branch:
  "match_branch (buffering q f b) m = map_outcome (buffering q f) (match_branch b m)"
  unfolding match_branch_def
  by (intro buffering_intros) (simp add: buffering_match)

lemma buffering_change_branch:
  "change_branch (buffering q f b) m = map_outcome (buffering q f) (change_branch b m)"
  unfolding change_branch_def
  by (intro buffering_intros) (simp add: buffering_change)

lemma buffering_received_branch:
  "received_branch (buffering q f b) m n = map_outcome (buffering q f) (received_branch b m n)"
  unfolding received_branch_def new_order_def
  apply (simp only: buffering_fields buffering_commutes)
  apply (intro buffering_intros)
  apply (simp add: buffering_received buffering_commutes)
  done

lemma buffering_dispatch:
  "dispatch (buffering q f b) m n ty = map_outcome (buffering q f) (dispatch b m n ty)"
  unfolding dispatch_def
  by (intro buffering_intros)
     (simp_all add: buffering_open_branch buffering_done_branch buffering_match_branch
        buffering_change_branch buffering_received_branch)

lemma buffering_update_order_book:
  "update_order_book (buffering q f b) m = map_outcome (buffering q f) (update_order_book b m)"
proof (cases "getitem m ''sequence''")
  case (Inl e)
  then show ?thesis by (simp add: update_order_book_def)
next
  case (Inr sv)
  show ?thesis
  proof (cases sv)
    case (JInt n)
    have "(if n \<le> book_sequence b then Inr (buffering q f b)
           else if n > book_sequence b + 1
             then Inl (Exception n (book_sequence b), buffering q f b)
           else raise_in (buffering q f b) (getitem m ''type'') (\<lambda>msg_type.
                  then_do (dispatch (buffering q f b) m n msg_type)
                    (\<lambda>b1. Inr (b1\<lparr>book_sequence := n\<rparr>))))
        = map_outcome (buffering q f)
           (if n \<le> book_sequence b then Inr b
            else if n > book_sequence b + 1 then Inl (Exception n (book_sequence b), b)
            else raise_in b (getitem m ''type'') (\<lambda>msg_type.
                   then_do (dispatch b m n msg_type)
                     (\<lambda>b1. Inr (b1\<lparr>book_sequence := n\<rparr>))))"
      by (intro buffering_intros) (simp_all add: buffering_dispatch buffering_commutes)
    then show ?thesis
      unfolding update_order_book_def Inr JInt
      by (simp only: raise_in_simps jval.case buffering_fields)
  qed (use Inr in \<open>simp_all add: update_order_book_def\<close>)
qed


lemma buffering_parse_snapshot_order:
  "parse_snapshot_order (buffering q f b) r sq sd = parse_snapshot_order b r sq sd"
  by (simp add: parse_snapshot_order_def)

lemma buffering_add_snapshot_orders:
  "add_snapshot_orders (buffering q f b) sq sd rs
     = map_outcome (buffering q f) (add_snapshot_orders b sq sd rs)"
proof (induction rs arbitrary: b)
  case Nil
  show ?case by simp
next
  case (Cons r rs)
  show ?case
    unfolding add_snapshot_orders.simps new_order_def prod.case
    apply (simp only: buffering_fields buffering_commutes buffering_parse_snapshot_order)
    apply (intro buffering_intros)
    apply (simp_all add: buffering_add Cons.IH)
    done
qed

lemma buffering_apply_order_book_snapshot:
  "apply_order_book_snapshot (buffering q f b) snap
     = map_outcome (buffering q f) (apply_order_book_snapshot b snap)"
  unfolding apply_order_book_snapshot_def
  apply (simp only: buffering_commutes)
  apply (intro buffering_intros)
  apply (simp_all add: buffering_add_snapshot_orders buffering_commutes)
  done

section \<open>Replay of the buffered events\<close>

lemma update_order_book_old:
  "m ''sequence'' = Some (JInt n) \<Longrightarrow> n \<le> book_sequence b \<Longrightarrow> update_order_book b m = Inr b"
  by (simp add: update_order_book_def getitem_def)

lemma update_order_book_returns_sequence:
  "m ''sequence'' = Some (JInt n) \<Longrightarrow> n = book_sequence b + 1 \<Longrightarrow>
   update_order_book b m = Inr b' \<Longrightarrow> book_sequence b' = n"
  by (auto simp: update_order_book_next[of m n b] raise_in_def then_do_def split: sum.splits)

lemma apply_order_book_snapshot_sequence:
  "apply_order_book_snapshot b snap = Inr b' \<Longrightarrow> book_sequence b' = snap_sequence snap"
  by (auto simp: apply_order_book_snapshot_def then_do_def split: sum.splits)

lemma on_message_pending:
  "pending_order_book_snapshot b \<Longrightarrow>
   on_message b m = Inr (buffering (message_queue b @ [m]) True b)"
  by (simp add: on_message_def buffering_def)

lemma on_message_live:
  "on_message (buffering q False b) m = map_outcome (buffering q False) (update_order_book b m)"
  by (simp add: on_message_def buffering_update_order_book)

lemma buffering_again [simp]:
  "buffering q f (buffering q' f' b) = buffering q f b"
  "(buffering q f b)\<lparr>message_queue := q'\<rparr> = buffering q' f b"
  "(buffering q f b)\<lparr>pending_order_book_snapshot := f'\<rparr> = buffering q f' b"
  by (simp_all add: buffering_def)

lemma buffering_id:
  "message_queue b = q \<Longrightarrow> pending_order_book_snapshot b = f \<Longrightarrow> buffering q f b = b"
  by (cases b) (simp add: buffering_def)


lemma buffering_snapshots:
  "(buffering q f b)\<lparr>snapshots := x\<rparr> = buffering q f (b\<lparr>snapshots := x\<rparr>)"
  by (simp add: buffering_def)

lemma on_order_book_snapshot_buffering:
  "on_order_book_snapshot (buffering q f b) (Some snap) =
     then_do
       (map_outcome (buffering q f)
          (apply_order_book_snapshot
             ((logging b INFO ''Order Book Snapshot received'')
                \<lparr>snapshots := snapshots b @ [snap]\<rparr>) snap))
       (\<lambda>b3. then_do (drain b3 (message_queue b3))
                (\<lambda>b4. Inr (b4\<lparr>pending_order_book_snapshot := False\<rparr>)))"
proof -
  have "snapshots (logging x l t) = snapshots x" for x l t by (simp add: logging_def)
  then show ?thesis
    by (simp add: on_order_book_snapshot_def Let_def buffering_commutes buffering_snapshots
          buffering_apply_order_book_snapshot)
qed

lemma drain_two:
  "drain (buffering q f b) [m, m'] =
     then_do (map_outcome (buffering [m'] f) (update_order_book b m))
       (\<lambda>b1. then_do (update_order_book (b1\<lparr>message_queue := []\<rparr>) m') Inr)"
proof -
  have "then_do r (\<lambda>b. Inr b) = r" for r :: outcome by (cases r) simp_all
  then show ?thesis by (simp add: buffering_update_order_book)
qed

lemma drain_old:
  "m ''sequence'' = Some (JInt n) \<Longrightarrow> n \<le> book_sequence b \<Longrightarrow>
   drain (buffering q f b) (m # ms) = drain (buffering ms f b) ms"
  by (simp add: update_order_book_old[of m n])

lemma replay_S5_Inr:
  assumes p: "pending_order_book_snapshot b" and q: "message_queue b = []"
    and n: "snap_sequence snap = 50"
    and s: "m48 ''sequence'' = Some (JInt 48)" "m49 ''sequence'' = Some (JInt 49)"
           "m50 ''sequence'' = Some (JInt 50)"
  shows "replay_S5 b snap m48 m49 m50 m51 m52 = Inr s \<longleftrightarrow>
    (\<exists>s3 s4 s5.
       apply_order_book_snapshot
         ((logging b INFO ''Order Book Snapshot received'')\<lparr>snapshots := snapshots b @ [snap]\<rparr>)
         snap = Inr s3 \<and>
       update_order_book s3 m51 = Inr s4 \<and> update_order_book s4 m52 = Inr s5 \<and>
       s = buffering [] False s5)"
proof -
  let ?core = "apply_order_book_snapshot
         ((logging b INFO ''Order Book Snapshot received'')\<lparr>snapshots := snapshots b @ [snap]\<rparr>)
         snap"
  let ?Q = "[m48, m49, m50, m51, m52]"
  have r: "replay_S5 b snap m48 m49 m50 m51 m52
             = on_order_book_snapshot (buffering ?Q True b) (Some snap)"
    using p q by (simp add: replay_S5_def on_message_pending)
  show ?thesis
  proof (cases ?core)
    case (Inl x)
    then show ?thesis unfolding r on_order_book_snapshot_buffering
      by (cases x) simp
  next
    case (Inr s3)
    have q3: "book_sequence s3 = 50"
      using apply_order_book_snapshot_sequence[OF Inr] n by simp
    have d: "drain (buffering ?Q True s3) ?Q =
       then_do (map_outcome (buffering [m52] True) (update_order_book s3 m51))
         (\<lambda>b1. then_do (update_order_book (b1\<lparr>message_queue := []\<rparr>) m52) Inr)"
      using s q3
      by (simp only: drain_old[of m48 48] drain_old[of m49 49] drain_old[of m50 50] drain_two)
    show ?thesis
    proof (cases "update_order_book s3 m51")
      case (Inl x)
      then show ?thesis unfolding r on_order_book_snapshot_buffering
        using Inr d by (cases x) simp
    next
      case s4: (Inr s4)
      show ?thesis
      proof (cases "update_order_book s4 m52")
        case (Inl x)
        then show ?thesis unfolding r on_order_book_snapshot_buffering
          using Inr d s4 by (cases x) (simp add: buffering_update_order_book)
      next
        case s5: (Inr s5)
        then show ?thesis unfolding r on_order_book_snapshot_buffering
          using Inr d s4 by (auto simp add: buffering_update_order_book)
      qed
    qed
  qed
qed


lemma direct_S5_Inr:
  assumes p: "pending_order_book_snapshot b" and q: "message_queue b = []"
  shows "direct_S5 b snap m51 m52 = Inr s \<longleftrightarrow>
    (\<exists>s3 s4 s5.
       apply_order_book_snapshot
         ((logging b INFO ''Order Book Snapshot received'')\<lparr>snapshots := snapshots b @ [snap]\<rparr>)
         snap = Inr s3 \<and>
       update_order_book s3 m51 = Inr s4 \<and> update_order_book s4 m52 = Inr s5 \<and>
       s = buffering [] False s5)"
proof -
  let ?core = "apply_order_book_snapshot
         ((logging b INFO ''Order Book Snapshot received'')\<lparr>snapshots := snapshots b @ [snap]\<rparr>)
         snap"
  have b: "b = buffering [] True b" using p q by (simp add: buffering_id)
  have r: "direct_S5 b snap m51 m52 =
      then_do (on_order_book_snapshot (buffering [] True b) (Some snap)) (\<lambda>b1.
      then_do (on_message b1 m51) (\<lambda>b2. on_message b2 m52))"
    unfolding direct_S5_def using b by simp
  show ?thesis
  proof (cases ?core)
    case (Inl x)
    then show ?thesis unfolding r on_order_book_snapshot_buffering
      by (cases x) simp
  next
    case (Inr s3)
    show ?thesis
    proof (cases "update_order_book s3 m51")
      case (Inl x)
      then show ?thesis unfolding r on_order_book_snapshot_buffering
        using Inr by (cases x) (simp add: on_message_live)
    next
      case s4: (Inr s4)
      show ?thesis
      proof (cases "update_order_book s4 m52")
        case (Inl x)
        then show ?thesis unfolding r on_order_book_snapshot_buffering
          using Inr s4 by (cases x) (simp add: on_message_live)
      next
        case s5: (Inr s5)
        then show ?thesis unfolding r on_order_book_snapshot_buffering
          using Inr s4 by (auto simp add: on_message_live)
      qed
    qed
  qed
qed

text \<open>
  Claim C7. Five events with the sequences 48 to 52 reach a book whose snapshot is
  pending and are buffered; the snapshot with sequence 50 arrives. The outcome is a book
  exactly when the snapshot applied with nothing buffered, followed by the events 51 and
  52 taken directly, gives that same book; and that book has the sequence 52, an empty
  queue and no snapshot pending.
\<close>

theorem S5_replay_splice:
  "pending_order_book_snapshot b \<Longrightarrow> message_queue b = [] \<Longrightarrow> snap_sequence snap = 50 \<Longrightarrow>
   m48 ''sequence'' = Some (JInt 48) \<Longrightarrow> m49 ''sequence'' = Some (JInt 49) \<Longrightarrow>
   m50 ''sequence'' = Some (JInt 50) \<Longrightarrow> m51 ''sequence'' = Some (JInt 51) \<Longrightarrow>
   m52 ''sequence'' = Some (JInt 52) \<Longrightarrow>
     (\<forall>s. replay_S5 b snap m48 m49 m50 m51 m52 = Inr s \<longleftrightarrow> direct_S5 b snap m51 m52 = Inr s) \<and>
     (\<forall>s. replay_S5 b snap m48 m49 m50 m51 m52 = Inr s \<longrightarrow>
          book_sequence s = 52 \<and> message_queue s = [] \<and> \<not> pending_order_book_snapshot s)"
proof -
  assume a: "pending_order_book_snapshot b" "message_queue b = []" "snap_sequence snap = 50"
    "m48 ''sequence'' = Some (JInt 48)" "m49 ''sequence'' = Some (JInt 49)"
    "m50 ''sequence'' = Some (JInt 50)"
    and m: "m51 ''sequence'' = Some (JInt 51)" "m52 ''sequence'' = Some (JInt 52)"
  note replay = replay_S5_Inr[where b = b and snap = snap and ?m48.0 = m48 and ?m49.0 = m49
                  and ?m50.0 = m50 and ?m51.0 = m51 and ?m52.0 = m52, OF a]
  note direct = direct_S5_Inr[where b = b and snap = snap and ?m51.0 = m51 and ?m52.0 = m52,
                  OF a(1,2)]
  have 1: "replay_S5 b snap m48 m49 m50 m51 m52 = Inr s \<longleftrightarrow> direct_S5 b snap m51 m52 = Inr s"
    for s
    unfolding replay direct ..
  have 2: "book_sequence s = 52 \<and> message_queue s = [] \<and> \<not> pending_order_book_snapshot s"
    if r: "replay_S5 b snap m48 m49 m50 m51 m52 = Inr s" for s
  proof -
    from r obtain s3 s4 s5 where
      c: "apply_order_book_snapshot
           ((logging b INFO ''Order Book Snapshot received'')
              \<lparr>snapshots := snapshots b @ [snap]\<rparr>) snap = Inr s3"
      and u: "update_order_book s3 m51 = Inr s4" "update_order_book s4 m52 = Inr s5"
      and e: "s = buffering [] False s5"
      unfolding replay by blast
    have 3: "book_sequence s3 = 50" using apply_order_book_snapshot_sequence[OF c] a(3) by simp
    have 4: "book_sequence s4 = 51"
      by (rule update_order_book_returns_sequence[of m51 51 s3 s4, OF m(1) _ u(1)]) (simp add: 3)
    have 5: "book_sequence s5 = 52"
      by (rule update_order_book_returns_sequence[of m52 52 s4 s5, OF m(2) _ u(2)]) (simp add: 4)
    show ?thesis unfolding e using 5 by simp
  qed
  show ?thesis using 1 2 by blast
qed

lemma direct_S5_value:
  "direct_S5 book_pending snapshot_50 (received_T 51) (received_T 52) = Inr book_52"
proof -
  have 0: "on_order_book_snapshot book_pending (Some snapshot_50) =
     Inr ((OrderBook ETH)\<lparr>book_sequence := 50, snapshots := [snapshot_50],
            logs := [(DEBUG, ''Pending order book snapshot''),
                     (INFO, ''Order Book Snapshot received'')]\<rparr>)"
    by (simp add: on_order_book_snapshot_def apply_order_book_snapshot_def OrderBook_def
          snapshot_50_def book_pending_def set_pending_order_book_snapshot_def logging_def Let_def)
  show ?thesis
    unfolding direct_S5_def 0
    by (simp add: on_message_def received_T_applied OrderBook_def book_52_def logging_def)
qed

theorem S5_replay_splice_witness:
  "replay_S5 book_pending snapshot_50 (received_T 48) (received_T 49) (received_T 50)
     (received_T 51) (received_T 52) = Inr book_52 \<and>
   direct_S5 book_pending snapshot_50 (received_T 51) (received_T 52) = Inr book_52 \<and>
   book_sequence book_52 = 52"
proof -
  have p: "pending_order_book_snapshot book_pending" "message_queue book_pending = []"
      "snap_sequence snapshot_50 = 50"
    by (simp_all add: book_pending_def set_pending_order_book_snapshot_def logging_def
          OrderBook_def snapshot_50_def)
  have q: "received_T n ''sequence'' = Some (JInt n)" for n by (simp add: received_T_def)
  note w = S5_replay_splice[where b = book_pending and snap = snapshot_50
             and ?m48.0 = "received_T 48" and ?m49.0 = "received_T 49"
             and ?m50.0 = "received_T 50" and ?m51.0 = "received_T 51"
             and ?m52.0 = "received_T 52", OF p q q q q q]
  have r: "replay_S5 book_pending snapshot_50 (received_T 48) (received_T 49) (received_T 50)
     (received_T 51) (received_T 52) = Inr book_52"
    using w[THEN conjunct1, rule_format, of book_52] direct_S5_value by simp
  show ?thesis
    using r direct_S5_value w[THEN conjunct2, rule_format, OF r] by simp
qed

section \<open>Applying a snapshot\<close>

lemma comparable_Some:
  "list_all (\<lambda>kv. fst kv \<noteq> None) t \<Longrightarrow> comparable t (Some p)"
  by (simp add: comparable_def list_all_iff)

lemma Side_neq:
  "(sd \<noteq> BUY) = (sd = SELL)" "(sd \<noteq> SELL) = (sd = BUY)"
  by (cases sd; simp)+

lemma add_new:
  assumes "price x = Some p" and "osize x = Some sz"
    and "list_all (\<lambda>kv. fst kv \<noteq> None) (ladder_of (side x) b)"
  shows "\<exists>b'. add (b\<lparr>objs := objs b @ [x]\<rparr>) (length (objs b)) = Inr b' \<and>
      objs b' = objs b @ [x] \<and>
      ladder_of (side x) b' =
        AList.update (Some p)
          ((case map_of (ladder_of (side x) b) (Some p) of None \<Rightarrow> [] | Some l \<Rightarrow> l)
             @ [length (objs b)])
          (ladder_of (side x) b) \<and>
      (\<forall>sd. sd \<noteq> side x \<longrightarrow> ladder_of sd b' = ladder_of sd b) \<and>
      order_id_to_order b' = (order_id_to_order b)(order_id x \<mapsto> length (objs b)) \<and>
      order_id_to_unreflected_order b' = order_id_to_unreflected_order b \<and>
      book_sequence b' = book_sequence b \<and> book_product_id b' = book_product_id b"
proof (cases "side x")
  case BUY
  then show ?thesis
    using assms comparable_Some[of "bids b" p]
    by (cases "map_of (bids b) (Some p)")
       (auto simp: add_def ladder_of_def get_bids_def set_bids_def tree_get_def tree_insert_def
          on_add_def logging_def Let_def Side_neq)
next
  case SELL
  then show ?thesis
    using assms comparable_Some[of "asks b" p]
    by (cases "map_of (asks b) (Some p)")
       (auto simp: add_def ladder_of_def get_asks_def set_asks_def tree_get_def tree_insert_def
          on_add_def logging_def Let_def Side_neq)
qed

lemma parse_snapshot_order_fields:
  "parse_snapshot_order b r sq sd = Inr x \<Longrightarrow>
   side x = sd \<and> (\<exists>p. price x = Some p) \<and> (\<exists>sz. osize x = Some sz)"
  by (auto simp: parse_snapshot_order_def bindE_def split: sum.splits)

lemma parse_snapshot_order_product:
  "book_product_id b' = book_product_id b \<Longrightarrow>
   parse_snapshot_order b' r sq sd = parse_snapshot_order b r sq sd"
  by (simp add: parse_snapshot_order_def)

lemma add_snapshot_orders_append:
  "add_snapshot_orders b sq sd (rs @ rs') =
     then_do (add_snapshot_orders b sq sd rs) (\<lambda>b1. add_snapshot_orders b1 sq sd rs')"
proof (induction rs arbitrary: b)
  case Nil
  show ?case by simp
next
  case (Cons r rs)
  show ?case
    by (simp add: Cons.IH raise_in_def then_do_def new_order_def split: sum.splits)
qed

lemma parse_rows_append:
  "parse_rows b sq sd (rs @ [r]) =
     bindE (parse_rows b sq sd rs) (\<lambda>os'.
     bindE (parse_snapshot_order b r sq sd) (\<lambda>x. Inr (os' @ [x])))"
  by (induction rs) (simp_all add: bindE_def split: sum.splits)


lemma map_nth_append_valid:
  "\<forall>a\<in>set l. a < length xs \<Longrightarrow> map (\<lambda>a. (xs @ ys) ! a) l = map (\<lambda>a. xs ! a) l"
  by (induction l) (auto simp: nth_append)

lemma side_loaded_start:
  "ladder_of sd b0 = [] \<Longrightarrow>
   \<forall>oid a. order_id_to_order b0 oid = Some a \<longrightarrow> a < length (objs b0) \<Longrightarrow>
   side_loaded b0 sd [] b0"
  by (simp add: side_loaded_def level_orders_def rows_at_def)

lemma side_loaded_step:
  assumes inv: "side_loaded b0 sd os b1"
    and x: "side x = sd" "price x = Some p"
    and o: "objs b2 = objs b1 @ [x]"
    and l: "ladder_of sd b2 =
        AList.update (Some p)
          ((case map_of (ladder_of sd b1) (Some p) of None \<Rightarrow> [] | Some l \<Rightarrow> l)
             @ [length (objs b1)])
          (ladder_of sd b1)"
    and l': "\<forall>s. s \<noteq> sd \<longrightarrow> ladder_of s b2 = ladder_of s b1"
    and d: "order_id_to_order b2 = (order_id_to_order b1)(order_id x \<mapsto> length (objs b1))"
    and f: "order_id_to_unreflected_order b2 = order_id_to_unreflected_order b1"
       "book_sequence b2 = book_sequence b1" "book_product_id b2 = book_product_id b1"
  shows "side_loaded b0 sd (os @ [x]) b2"
proof -
  let ?t = "ladder_of sd b1" and ?n = "length (objs b1)"
  define lvl where "lvl = (case map_of ?t (Some p) of None \<Rightarrow> [] | Some l \<Rightarrow> l)"
  note l = l[folded lvl_def]
  have i1: "objs b1 = objs b0 @ os"
    and i2: "\<And>k. level_orders b1 ?t k = rows_at os k"
    and i3: "\<And>k l a. map_of ?t k = Some l \<Longrightarrow> a \<in> set l \<Longrightarrow> a < ?n"
    and i4: "list_all (\<lambda>kv. fst kv \<noteq> None) ?t"
    and i5: "\<And>s. s \<noteq> sd \<Longrightarrow> ladder_of s b1 = ladder_of s b0"
    and i6: "\<And>oid. resting_order b1 oid =
               (case find (\<lambda>x. order_id x = oid) (rev os) of
                  Some x \<Rightarrow> Some x | None \<Rightarrow> resting_order b0 oid)"
    and i7: "\<And>oid a. order_id_to_order b1 oid = Some a \<Longrightarrow> a < ?n"
    and i8: "order_id_to_unreflected_order b1 = order_id_to_unreflected_order b0"
       "book_sequence b1 = book_sequence b0" "book_product_id b1 = book_product_id b0"
    using inv unfolding side_loaded_def by blast+
  have old: "map (\<lambda>a. (objs b1 @ [x]) ! a) l = map (\<lambda>a. objs b1 ! a) l"
    if "map_of ?t k = Some l" for k l
    using i3[OF that] by (intro map_nth_append_valid) simp
  have lvl: "map (\<lambda>a. objs b1 ! a) lvl = filter (\<lambda>y. price y = Some p) os"
    using i2[of "Some p"] unfolding lvl_def
    by (cases "map_of ?t (Some p)")
       (auto simp: level_orders_def rows_at_def split: if_splits)
  have lvl_valid: "\<forall>a\<in>set lvl. a < ?n"
    using i3[of "Some p"] unfolding lvl_def by (cases "map_of ?t (Some p)") auto
  have c1: "objs b2 = objs b0 @ (os @ [x])" using o i1 by simp
  have c2: "level_orders b2 (ladder_of sd b2) k = rows_at (os @ [x]) k" for k
  proof (cases "k = Some p")
    case True
    have "map (\<lambda>a. (objs b1 @ [x]) ! a) (lvl @ [?n])
            = filter (\<lambda>y. price y = Some p) os @ [x]"
      using lvl map_nth_append_valid[OF lvl_valid, of "[x]"] by simp
    then show ?thesis
      using True x(2) by (simp add: level_orders_def l o update_conv' rows_at_def)
  next
    case False
    then have "map_of (ladder_of sd b2) k = map_of ?t k" by (simp add: l update_conv')
    moreover have "rows_at (os @ [x]) k = rows_at os k"
      using False x(2) by (auto simp: rows_at_def)
    ultimately have m: "map_of (ladder_of sd b2) k = map_of ?t k"
      and r: "rows_at (os @ [x]) k = rows_at os k" by simp_all
    show ?thesis
    proof (cases "map_of ?t k")
      case None
      then show ?thesis using i2[of k] m r by (simp add: level_orders_def)
    next
      case (Some l0)
      have "level_orders b2 (ladder_of sd b2) k = Some (map (\<lambda>a. (objs b1 @ [x]) ! a) l0)"
        by (simp add: level_orders_def m Some o)
      also have "\<dots> = Some (map (\<lambda>a. objs b1 ! a) l0)"
        by (simp only: old[OF Some])
      also have "\<dots> = level_orders b1 ?t k"
        by (simp add: level_orders_def Some)
      finally show ?thesis using i2[of k] r by simp
    qed
  qed
  have c3: "a < length (objs b2)" if "map_of (ladder_of sd b2) k = Some l'" "a \<in> set l'" for k l' a
  proof (cases "k = Some p")
    case True
    then have "l' = lvl @ [?n]" using that(1) by (simp add: l update_conv')
    then show ?thesis using that(2) lvl_valid o by (auto simp: less_Suc_eq)
  next
    case False
    then have "map_of ?t k = Some l'" using that(1) by (simp add: l update_conv')
    then show ?thesis using i3 that(2) o by (auto simp: less_Suc_eq)
  qed
  have c4: "list_all (\<lambda>kv. fst kv \<noteq> None) (ladder_of sd b2)"
  proof -
    have "fst ` set (ladder_of sd b2) = {Some p} \<union> fst ` set ?t" by (simp add: l dom_update)
    moreover have "None \<notin> fst ` set ?t" using i4 unfolding list_all_iff by force
    ultimately have "None \<notin> fst ` set (ladder_of sd b2)" by simp
    then show ?thesis unfolding list_all_iff by force
  qed
  have c5: "ladder_of s b2 = ladder_of s b0" if "s \<noteq> sd" for s
    using that l' i5 by simp
  have c6: "resting_order b2 oid =
               (case find (\<lambda>x. order_id x = oid) (rev (os @ [x])) of
                  Some x \<Rightarrow> Some x | None \<Rightarrow> resting_order b0 oid)" for oid
  proof (cases "order_id x = oid")
    case True
    then show ?thesis by (simp add: resting_order_def d o)
  next
    case False
    have "resting_order b2 oid = resting_order b1 oid"
      using False i7[of oid] by (cases "order_id_to_order b1 oid")
        (simp_all add: resting_order_def d o nth_append)
    then show ?thesis using False i6[of oid] by simp
  qed
  have c7: "a < length (objs b2)" if "order_id_to_order b2 oid = Some a" for oid a
    using that i7[of oid a] by (cases "order_id x = oid") (simp_all add: d o less_Suc_eq split: if_splits)
  show ?thesis
    unfolding side_loaded_def
    using c1 c2 c3 c4 c5 c6 c7 f i8 by (intro conjI allI impI) auto
qed


lemma add_snapshot_orders_loaded:
  assumes e: "ladder_of sd b0 = []"
    and v: "\<forall>oid a. order_id_to_order b0 oid = Some a \<longrightarrow> a < length (objs b0)"
  shows "parse_rows b0 sq sd rs = Inr os \<Longrightarrow>
         \<exists>b'. add_snapshot_orders b0 sq sd rs = Inr b' \<and> side_loaded b0 sd os b'"
proof (induction rs arbitrary: os rule: rev_induct)
  case Nil
  then show ?case using side_loaded_start[OF e v] by simp
next
  case (snoc r rs)
  from snoc.prems obtain os' x where
    p: "parse_rows b0 sq sd rs = Inr os'" "parse_snapshot_order b0 r sq sd = Inr x"
      and os: "os = os' @ [x]"
    unfolding parse_rows_append by (auto simp: bindE_def split: sum.splits)
  from snoc.IH[OF p(1)] obtain b1 where
    b1: "add_snapshot_orders b0 sq sd rs = Inr b1" and inv: "side_loaded b0 sd os' b1"
    by blast
  from parse_snapshot_order_fields[OF p(2)] obtain pr sz where
    x: "side x = sd" "price x = Some pr" "osize x = Some sz" by blast
  have pid: "book_product_id b1 = book_product_id b0"
    and keys: "list_all (\<lambda>kv. fst kv \<noteq> None) (ladder_of (side x) b1)"
    using inv x(1) unfolding side_loaded_def by blast+
  have px: "parse_snapshot_order b1 r sq sd = Inr x"
    using p(2) parse_snapshot_order_product[of b1 b0, OF pid] by simp
  from add_new[OF x(2,3) keys] obtain b2 where
    a: "add (b1\<lparr>objs := objs b1 @ [x]\<rparr>) (length (objs b1)) = Inr b2"
    and f: "objs b2 = objs b1 @ [x]"
      "ladder_of (side x) b2 =
        AList.update (Some pr)
          ((case map_of (ladder_of (side x) b1) (Some pr) of None \<Rightarrow> [] | Some l \<Rightarrow> l)
             @ [length (objs b1)])
          (ladder_of (side x) b1)"
      "\<forall>s. s \<noteq> side x \<longrightarrow> ladder_of s b2 = ladder_of s b1"
      "order_id_to_order b2 = (order_id_to_order b1)(order_id x \<mapsto> length (objs b1))"
      "order_id_to_unreflected_order b2 = order_id_to_unreflected_order b1"
      "book_sequence b2 = book_sequence b1" "book_product_id b2 = book_product_id b1"
    by blast
  have run: "add_snapshot_orders b0 sq sd (rs @ [r]) = Inr b2"
    by (simp add: add_snapshot_orders_append b1 px new_order_def a)
  have "side_loaded b0 sd (os' @ [x]) b2"
    using side_loaded_step[OF inv x(1,2) f(1) f(2)[unfolded x(1)] f(3)[unfolded x(1)] f(4-7)] .
  then show ?case using run os by simp
qed

lemma parse_rows_product:
  "book_product_id b' = book_product_id b \<Longrightarrow> parse_rows b' sq sd rs = parse_rows b sq sd rs"
  by (induction rs) (simp_all add: parse_snapshot_order_product[of b' b])

lemma find_append_case:
  "find P (xs @ ys) = (case find P xs of Some x \<Rightarrow> Some x | None \<Rightarrow> find P ys)"
  by (induction xs) simp_all


text \<open>
  Claim C6. For every book and every snapshot whose rows parse (to \<open>obs\<close> on the bid
  side and \<open>oas\<close> on the ask side), \<open>apply_order_book_snapshot\<close> returns, and in the
  book it returns: the queue at every price of the bids (asks) is the list of the bid
  (ask) rows with that price, in the order of the snapshot, and there is no level
  without a row; \<open>order_id_to_order\<close> holds for every id the last row with that id and is
  empty elsewhere; the sequence is the snapshot's; \<open>order_id_to_unreflected_order\<close> is as
  before, and the objects that were in the store are untouched.
\<close>

theorem apply_order_book_snapshot_exact:
  "parse_rows b (snap_sequence snap) BUY (snap_bids snap) = Inr obs \<Longrightarrow>
   parse_rows b (snap_sequence snap) SELL (snap_asks snap) = Inr oas \<Longrightarrow>
   \<exists>b'. apply_order_book_snapshot b snap = Inr b' \<and>
        (\<forall>k. level_orders b' (bids b') k = rows_at obs k) \<and>
        (\<forall>k. level_orders b' (asks b') k = rows_at oas k) \<and>
        (\<forall>oid. resting_order b' oid = find (\<lambda>x. order_id x = oid) (rev (obs @ oas))) \<and>
        book_sequence b' = snap_sequence snap \<and>
        order_id_to_unreflected_order b' = order_id_to_unreflected_order b \<and>
        objs b' = objs b @ obs @ oas"
proof -
  assume pb: "parse_rows b (snap_sequence snap) BUY (snap_bids snap) = Inr obs"
    and pa: "parse_rows b (snap_sequence snap) SELL (snap_asks snap) = Inr oas"
  let ?sq = "snap_sequence snap"
  define b0 where "b0 = b\<lparr>asks := [], bids := [], order_id_to_order := Map.empty\<rparr>"
  have b0: "ladder_of BUY b0 = []" "ladder_of SELL b0 = []"
      "\<forall>oid a. order_id_to_order b0 oid = Some a \<longrightarrow> a < length (objs b0)"
      "book_product_id b0 = book_product_id b" "objs b0 = objs b"
      "order_id_to_unreflected_order b0 = order_id_to_unreflected_order b"
      "\<And>oid. resting_order b0 oid = None"
    by (simp_all add: b0_def ladder_of_def resting_order_def)
  have pb0: "parse_rows b0 ?sq BUY (snap_bids snap) = Inr obs"
    using pb parse_rows_product[OF b0(4)] by simp
  from add_snapshot_orders_loaded[OF b0(1) b0(3) pb0] obtain b1 where
    r1: "add_snapshot_orders b0 ?sq BUY (snap_bids snap) = Inr b1"
    and i1: "side_loaded b0 BUY obs b1" by blast
  have f1: "objs b1 = objs b0 @ obs"
    "\<And>k. level_orders b1 (ladder_of BUY b1) k = rows_at obs k"
    "\<And>k l a. map_of (ladder_of BUY b1) k = Some l \<Longrightarrow> a \<in> set l \<Longrightarrow> a < length (objs b1)"
    "ladder_of SELL b1 = ladder_of SELL b0"
    "\<And>oid. resting_order b1 oid =
       (case find (\<lambda>x. order_id x = oid) (rev obs) of
          Some x \<Rightarrow> Some x | None \<Rightarrow> resting_order b0 oid)"
    "\<forall>oid a. order_id_to_order b1 oid = Some a \<longrightarrow> a < length (objs b1)"
    "order_id_to_unreflected_order b1 = order_id_to_unreflected_order b0"
    "book_product_id b1 = book_product_id b0"
    using i1 unfolding side_loaded_def by auto
  have e1: "ladder_of SELL b1 = []" using f1(4) b0(2) by simp
  have pa1: "parse_rows b1 ?sq SELL (snap_asks snap) = Inr oas"
    using pa parse_rows_product[of b1 b] f1(8) b0(4) by simp
  from add_snapshot_orders_loaded[OF e1 f1(6) pa1] obtain b2 where
    r2: "add_snapshot_orders b1 ?sq SELL (snap_asks snap) = Inr b2"
    and i2: "side_loaded b1 SELL oas b2" by blast
  have f2: "objs b2 = objs b1 @ oas"
    "\<And>k. level_orders b2 (ladder_of SELL b2) k = rows_at oas k"
    "ladder_of BUY b2 = ladder_of BUY b1"
    "\<And>oid. resting_order b2 oid =
       (case find (\<lambda>x. order_id x = oid) (rev oas) of
          Some x \<Rightarrow> Some x | None \<Rightarrow> resting_order b1 oid)"
    "order_id_to_unreflected_order b2 = order_id_to_unreflected_order b1"
    using i2 unfolding side_loaded_def by auto
  have run: "apply_order_book_snapshot b snap = Inr (b2\<lparr>book_sequence := ?sq\<rparr>)"
    using r1 r2 by (simp add: apply_order_book_snapshot_def b0_def)
  have bid: "level_orders b2 (bids b2) k = rows_at obs k" for k
  proof (cases "map_of (ladder_of BUY b1) k")
    case None
    then show ?thesis
      using f1(2)[of k] f2(3) by (simp add: level_orders_def ladder_of_def)
  next
    case (Some l)
    have m: "map (\<lambda>a. (objs b1 @ oas) ! a) l = map (\<lambda>a. objs b1 ! a) l"
      using f1(3)[OF Some] by (intro map_nth_append_valid) simp
    have "level_orders b2 (bids b2) k = Some (map (\<lambda>a. (objs b1 @ oas) ! a) l)"
      using f2(1,3) Some by (simp add: level_orders_def ladder_of_def)
    also have "\<dots> = Some (map (\<lambda>a. objs b1 ! a) l)"
      by (simp only: m)
    also have "\<dots> = level_orders b1 (ladder_of BUY b1) k"
      using Some by (simp add: level_orders_def)
    also have "\<dots> = rows_at obs k" by (rule f1(2))
    finally show ?thesis .
  qed
  have ask: "level_orders b2 (asks b2) k = rows_at oas k" for k
    using f2(2)[of k] by (simp add: ladder_of_def)
  have rest: "resting_order b2 oid = find (\<lambda>x. order_id x = oid) (rev (obs @ oas))" for oid
    using f2(4)[of oid] f1(5)[of oid] b0(7)[of oid]
    by (simp add: find_append_case split: option.splits)
  have "(\<forall>k. level_orders (b2\<lparr>book_sequence := ?sq\<rparr>) (bids (b2\<lparr>book_sequence := ?sq\<rparr>)) k
           = rows_at obs k) \<and>
        (\<forall>k. level_orders (b2\<lparr>book_sequence := ?sq\<rparr>) (asks (b2\<lparr>book_sequence := ?sq\<rparr>)) k
           = rows_at oas k) \<and>
        (\<forall>oid. resting_order (b2\<lparr>book_sequence := ?sq\<rparr>) oid
           = find (\<lambda>x. order_id x = oid) (rev (obs @ oas))) \<and>
        book_sequence (b2\<lparr>book_sequence := ?sq\<rparr>) = ?sq \<and>
        order_id_to_unreflected_order (b2\<lparr>book_sequence := ?sq\<rparr>)
          = order_id_to_unreflected_order b \<and>
        objs (b2\<lparr>book_sequence := ?sq\<rparr>) = objs b @ obs @ oas"
    using bid ask rest f2(1,5) f1(1,7) b0(5,6)
    by (simp add: level_orders_def resting_order_def)
  then show ?thesis using run by blast
qed


theorem apply_order_book_snapshot_exact_witness:
  "parse_rows (OrderBook ETH) (snap_sequence snapshot_400) BUY (snap_bids snapshot_400)
     = Inr [order_400 ''B'' BUY 9 1] \<and>
   parse_rows (OrderBook ETH) (snap_sequence snapshot_400) SELL (snap_asks snapshot_400)
     = Inr [order_400 ''A'' SELL 10 (3 / 2)] \<and>
   (\<exists>b'. apply_order_book_snapshot (OrderBook ETH) snapshot_400 = Inr b' \<and>
         level_orders b' (bids b') (Some 9) = Some [order_400 ''B'' BUY 9 1] \<and>
         level_orders b' (asks b') (Some 9) = None \<and>
         resting_order b' (JStr ''A'') = Some (order_400 ''A'' SELL 10 (3 / 2)) \<and>
         book_sequence b' = 400 \<and>
         objs b' = [order_400 ''B'' BUY 9 1, order_400 ''A'' SELL 10 (3 / 2)])"
proof -
  have pb: "parse_rows (OrderBook ETH) (snap_sequence snapshot_400) BUY (snap_bids snapshot_400)
     = Inr [order_400 ''B'' BUY 9 1]"
    by (simp add: snapshot_400_def parse_snapshot_order_def row_get_def decimal_eval
          OrderBook_def order_400_def ETH_def)
  have pa: "parse_rows (OrderBook ETH) (snap_sequence snapshot_400) SELL (snap_asks snapshot_400)
     = Inr [order_400 ''A'' SELL 10 (3 / 2)]"
    by (simp add: snapshot_400_def parse_snapshot_order_def row_get_def decimal_eval
          OrderBook_def order_400_def ETH_def)
  from apply_order_book_snapshot_exact[OF pb pa] obtain b' where
    r: "apply_order_book_snapshot (OrderBook ETH) snapshot_400 = Inr b'"
    and l: "\<And>k. level_orders b' (bids b') k = rows_at [order_400 ''B'' BUY 9 1] k"
      "\<And>k. level_orders b' (asks b') k = rows_at [order_400 ''A'' SELL 10 (3 / 2)] k"
      "\<And>oid. resting_order b' oid = find (\<lambda>x. order_id x = oid)
         (rev ([order_400 ''B'' BUY 9 1] @ [order_400 ''A'' SELL 10 (3 / 2)]))"
    and s: "book_sequence b' = snap_sequence snapshot_400"
      "objs b' = objs (OrderBook ETH) @ [order_400 ''B'' BUY 9 1] @ [order_400 ''A'' SELL 10 (3 / 2)]"
    by blast
  have "level_orders b' (bids b') (Some 9) = Some [order_400 ''B'' BUY 9 1] \<and>
        level_orders b' (asks b') (Some 9) = None \<and>
        resting_order b' (JStr ''A'') = Some (order_400 ''A'' SELL 10 (3 / 2)) \<and>
        book_sequence b' = 400 \<and>
        objs b' = [order_400 ''B'' BUY 9 1, order_400 ''A'' SELL 10 (3 / 2)]"
    unfolding l s by (simp add: rows_at_def order_400_def snapshot_400_def OrderBook_def)
  then show ?thesis using pb pa r by blast
qed

section \<open>Events that disagree with the book: what each one leaves\<close>

lemma snapshot_600_applied:
  "on_order_book_snapshot (OrderBook ETH) (Some snapshot_600) = Inr book_600"
  by (simp add: snapshot_eval snapshot_600_def book_600_def order_600_def ETH_def)

lemma received_V_applied: "on_message book_600 received_V = Inr book_601"
  by (simp add: on_message_def update_order_book_def getitem_def received_V_def dispatch_def
        received_branch_def received_terms_def decimal_eval time_eval get_default_def
        raw_funds_def side_of_def new_order_def received_def on_received_def order_V_def
        ETH_def book_600_def book_601_def logging_def order_600_def numeral_2_eq_2)

lemma match_C_V_aborts:
  "on_message book_601 match_C_V = Inl (AssertionError, book_601_aborted)"
  by (simp add: on_message_def book_600_def book_601_def book_601_aborted_def order_600_def
        order_V_def match_C_V_def match_eval)

lemma remove_order_resting:
  assumes d: "order_id_to_order b oid = Some a"
    and ps: "price (objs b ! a) = Some p0" "osize (objs b ! a) = Some s0"
    and c: "comparable (ladder_of sd b) (Some p)"
  shows "\<exists>b'. remove_order b oid sd p r = Inr b' \<and> book_sequence b' = book_sequence b \<and>
              order_id_to_order b' = (order_id_to_order b)(oid := None) \<and>
              order_id_to_unreflected_order b' = order_id_to_unreflected_order b \<and>
              objs b' = objs b \<and>
              (\<forall>s k. map_of (ladder_of s b') k =
                 (if s = sd \<and> k = Some p
                  then (case map_of (ladder_of sd b) (Some p) of
                          None \<Rightarrow> None
                        | Some l \<Rightarrow>
                            if filter (\<lambda>x. order_id (objs b ! x) \<noteq> oid) l = [] then None
                            else Some (filter (\<lambda>x. order_id (objs b ! x) \<noteq> oid) l))
                  else map_of (ladder_of s b) k)) \<and>
              (sd \<noteq> side (objs b ! a) \<or> p \<noteq> p0 \<longrightarrow> logged_error b b')"
proof (cases sd)
  case BUY
  then show ?thesis
    using assms
    by (cases "map_of (bids b) (Some p)")
       (auto simp: Side_neq remove_order_def Let_def logging_def logged_error_def get_bids_def
          set_bids_def remove_bids_def tree_get_def tree_insert_def tree_remove_def
          on_remove_def ladder_of_def update_conv' delete_conv')
next
  case SELL
  then show ?thesis
    using assms
    by (cases "map_of (asks b) (Some p)")
       (auto simp: Side_neq remove_order_def Let_def logging_def logged_error_def get_asks_def
          set_asks_def remove_asks_def tree_get_def tree_insert_def tree_remove_def
          on_remove_def ladder_of_def update_conv' delete_conv')
qed


lemma set_osize_side_price [simp]:
  "side (objs (set_osize b i v) ! j) = side (objs b ! j)"
  "price (objs (set_osize b i v) ! j) = price (objs b ! j)"
  by (cases "i < length (objs b)"; cases "i = j"; simp add: set_osize_def list_update_beyond)+

lemma set_osize_osize:
  "a < length (objs b) \<Longrightarrow> osize (objs (set_osize b a v) ! a) = v"
  by (simp add: set_osize_def)

lemma change_resting:
  assumes "order_id_to_order b oid = Some a"
    and "tree_get (if side (objs b ! a) = SELL then asks b else bids b) (price (objs b ! a))
           = Inr (Some (x # xs))"
  shows "change b oid old new =
           Inr (logging
                  (set_osize
                     (if osize (objs b ! a) \<noteq> Some old
                      then logging b ERROR ''Trying to change order but old_size does not match''
                      else b) a (Some new))
                  DEBUG ''Change'')"
  using assms
  by (cases "side (objs b ! a) = SELL")
     (simp_all add: change_def Let_def on_change_def get_asks_def get_bids_def)

lemma match_sell_not_head:
  assumes "tree_get (asks b) (Some p) = Inr (Some (h # rest))"
    and "order_id (objs b ! h) \<noteq> mk"
  shows "match b sd p sz mk tk =
           Inl (AssertionError,
                match_taker
                  (case order_id_to_order b mk of
                     Some mo \<Rightarrow> b
                   | None \<Rightarrow> logging b ERROR ''Unable to find maker order for trade'')
                  sz tk)"
  using assms
  by (simp add: match_def Let_def Side_eq_str_def get_asks_def split: option.splits)

lemma match_taker_filled:
  assumes "order_id_to_unreflected_order b tk = Some ta" "ta < length (objs b)"
    and "osize (objs b ! ta) = Some tsz" "tsz \<noteq> 0" "tsz \<le> sz"
  shows "order_id_to_unreflected_order (match_taker b sz tk) tk = None"
    "osize (objs (match_taker b sz tk) ! ta) = Some (tsz - sz)"
  using assms by (simp_all add: match_taker_def set_osize_def logging_def)

lemma match_no_asks_level:
  assumes "tree_get (asks b) (Some p) = Inr None \<or> tree_get (asks b) (Some p) = Inr (Some [])"
  shows "match b sd p sz mk tk =
           Inr (match_taker
                  (case order_id_to_order b mk of
                     Some mo \<Rightarrow> b
                   | None \<Rightarrow> logging b ERROR ''Unable to find maker order for trade'')
                  sz tk)"
  using assms
  by (auto simp: match_def Let_def Side_eq_str_def get_asks_def split: option.splits)


text \<open>
  Claim C8, as the code has it, for an event at the book's sequence plus one.

  A \<open>done\<close> whose side or price differs from those of the stored resting order (which
  has a price and a size), the ladder on the message's side holding no order without a
  price: an error is logged and the event is carried out with the side and the price
  of the message. The order leaves \<open>order_id_to_order\<close>; the level at the message's side
  and price loses its entries with that id, and is dropped if none is left; every other
  level is as before, the order's own level among them, so the order stays in its
  queue; the sequence advances.

  A \<open>change\<close> whose \<open>old_size\<close> differs from the stored size, the order's own level
  being there and not empty (the hook reads it): an error is logged, the size becomes
  \<open>new_size\<close>, nothing else changes but the log, and the sequence advances.

  A sell-side \<open>match\<close> whose maker is not the head of the asks queue at the match
  price does not proceed: the \<open>assert\<close> raises AssertionError. The book it leaves is the
  one that the taker's part of \<open>match\<close> has produced: the ladders, \<open>order_id_to_order\<close>
  and the sequence are as before, and a pending taker that the match fills has already
  been decremented and deleted.
\<close>

theorem inconsistent_events:
  "n = book_sequence b + 1 \<Longrightarrow>
     (is_done m n oid sd p r \<and> order_id_to_order b oid = Some a \<and>
      price (objs b ! a) = Some p0 \<and> osize (objs b ! a) = Some s0 \<and>
      (sd \<noteq> side (objs b ! a) \<or> p \<noteq> p0) \<and> comparable (ladder_of sd b) (Some p)
      \<longrightarrow> (\<exists>b'. update_order_book b m = Inr b' \<and> book_sequence b' = n \<and>
                 logged_error b b' \<and>
                 order_id_to_order b' = (order_id_to_order b)(oid := None) \<and>
                 order_id_to_unreflected_order b' = order_id_to_unreflected_order b \<and>
                 objs b' = objs b \<and>
                 (\<forall>s k. map_of (ladder_of s b') k =
                    (if s = sd \<and> k = Some p
                     then (case map_of (ladder_of sd b) (Some p) of
                             None \<Rightarrow> None
                           | Some l \<Rightarrow>
                               if filter (\<lambda>x. order_id (objs b ! x) \<noteq> oid) l = [] then None
                               else Some (filter (\<lambda>x. order_id (objs b ! x) \<noteq> oid) l))
                     else map_of (ladder_of s b) k)) \<and>
                 map_of (ladder_of (side (objs b ! a)) b') (price (objs b ! a)) =
                   map_of (ladder_of (side (objs b ! a)) b) (price (objs b ! a)))) \<and>
     (is_change m n oid old new \<and> order_id_to_order b oid = Some a \<and> a < length (objs b) \<and>
      osize (objs b ! a) \<noteq> Some old \<and>
      tree_get (if side (objs b ! a) = SELL then asks b else bids b) (price (objs b ! a))
        = Inr (Some (x # xs))
      \<longrightarrow> (\<exists>b'. update_order_book b m = Inr b' \<and> book_sequence b' = n \<and>
                 logged_error b b' \<and> osize (objs b' ! a) = Some new \<and>
                 objs b' = (objs b)[a := (objs b ! a)\<lparr>osize := Some new\<rparr>] \<and>
                 asks b' = asks b \<and> bids b' = bids b \<and>
                 order_id_to_order b' = order_id_to_order b \<and>
                 order_id_to_unreflected_order b' = order_id_to_unreflected_order b)) \<and>
     (is_match m n mk tk SELL p sz \<and> tree_get (asks b) (Some p) = Inr (Some (h # rest)) \<and>
      order_id (objs b ! h) \<noteq> mk
      \<longrightarrow> (\<exists>b'. update_order_book b m = Inl (AssertionError, b') \<and>
                 b' = match_taker
                        (case order_id_to_order b mk of
                           Some mo \<Rightarrow> b
                         | None \<Rightarrow> logging b ERROR ''Unable to find maker order for trade'')
                        sz tk \<and>
                 book_sequence b' = book_sequence b \<and> asks b' = asks b \<and> bids b' = bids b \<and>
                 order_id_to_order b' = order_id_to_order b \<and>
                 (\<forall>ta tsz. order_id_to_unreflected_order b tk = Some ta \<and>
                      ta < length (objs b) \<and> osize (objs b ! ta) = Some tsz \<and>
                      tsz \<noteq> 0 \<and> tsz \<le> sz
                    \<longrightarrow> order_id_to_unreflected_order b' tk = None \<and>
                        osize (objs b' ! ta) = Some (tsz - sz))))"
proof (intro conjI impI)
  assume n: "n = book_sequence b + 1"
    and h: "is_done m n oid sd p r \<and> order_id_to_order b oid = Some a \<and>
      price (objs b ! a) = Some p0 \<and> osize (objs b ! a) = Some s0 \<and>
      (sd \<noteq> side (objs b ! a) \<or> p \<noteq> p0) \<and> comparable (ladder_of sd b) (Some p)"
  let ?lv = "\<lambda>s k. if s = sd \<and> k = Some p
                     then (case map_of (ladder_of sd b) (Some p) of
                             None \<Rightarrow> None
                           | Some l \<Rightarrow>
                               if filter (\<lambda>x. order_id (objs b ! x) \<noteq> oid) l = [] then None
                               else Some (filter (\<lambda>x. order_id (objs b ! x) \<noteq> oid) l))
                     else map_of (ladder_of s b) k"
  from h have d: "order_id_to_order b oid = Some a" "price (objs b ! a) = Some p0"
      "osize (objs b ! a) = Some s0" "comparable (ladder_of sd b) (Some p)"
      and i: "sd \<noteq> side (objs b ! a) \<or> p \<noteq> p0"
    by simp_all
  from remove_order_resting[of b oid a p0 s0 sd p r, OF d] obtain b1 where
    b1: "remove_order b oid sd p r = Inr b1" "book_sequence b1 = book_sequence b"
      "order_id_to_order b1 = (order_id_to_order b)(oid := None)"
      "order_id_to_unreflected_order b1 = order_id_to_unreflected_order b"
      "objs b1 = objs b"
      and lv: "\<And>s k. map_of (ladder_of s b1) k = ?lv s k"
      and le: "sd \<noteq> side (objs b ! a) \<or> p \<noteq> p0 \<longrightarrow> logged_error b b1"
    by blast
  let ?b' = "b1\<lparr>book_sequence := n\<rparr>"
  have u: "update_order_book b m = Inr ?b'"
    using h n b1(1) by (simp add: update_order_book_done[of m n oid sd p r b])
  have e: "logged_error b ?b'" using le i by (simp add: logged_error_def)
  have lo: "ladder_of s ?b' = ladder_of s b1" for s by (simp add: ladder_of_def)
  have lv': "map_of (ladder_of s ?b') k = ?lv s k" for s k
    unfolding lo by (rule lv)
  have own: "map_of (ladder_of (side (objs b ! a)) ?b') (price (objs b ! a)) =
               map_of (ladder_of (side (objs b ! a)) b) (price (objs b ! a))"
    unfolding lv' using i d(2) by auto
  show "\<exists>b'. update_order_book b m = Inr b' \<and> book_sequence b' = n \<and>
                 logged_error b b' \<and>
                 order_id_to_order b' = (order_id_to_order b)(oid := None) \<and>
                 order_id_to_unreflected_order b' = order_id_to_unreflected_order b \<and>
                 objs b' = objs b \<and>
                 (\<forall>s k. map_of (ladder_of s b') k = ?lv s k) \<and>
                 map_of (ladder_of (side (objs b ! a)) b') (price (objs b ! a)) =
                   map_of (ladder_of (side (objs b ! a)) b) (price (objs b ! a))"
  proof (intro exI[of _ ?b'] conjI allI)
    show "update_order_book b m = Inr ?b'" by (rule u)
    show "logged_error b ?b'" by (rule e)
    show "map_of (ladder_of s ?b') k = ?lv s k" for s k by (rule lv')
    show "map_of (ladder_of (side (objs b ! a)) ?b') (price (objs b ! a)) =
            map_of (ladder_of (side (objs b ! a)) b) (price (objs b ! a))" by (rule own)
  qed (simp_all add: b1)
next
  assume n: "n = book_sequence b + 1"
    and h: "is_change m n oid old new \<and> order_id_to_order b oid = Some a \<and> a < length (objs b) \<and>
      osize (objs b ! a) \<noteq> Some old \<and>
      tree_get (if side (objs b ! a) = SELL then asks b else bids b) (price (objs b ! a))
        = Inr (Some (x # xs))"
  let ?b1 = "logging
               (set_osize
                  (logging b ERROR ''Trying to change order but old_size does not match'')
                  a (Some new))
               DEBUG ''Change''"
  have c: "change b oid old new = Inr ?b1"
    using h change_resting[of b oid a x xs old new] by simp
  have u: "update_order_book b m = Inr (?b1\<lparr>book_sequence := n\<rparr>)"
    using h n c by (simp add: update_order_book_change[of m n oid old new b])
  show "\<exists>b'. update_order_book b m = Inr b' \<and> book_sequence b' = n \<and>
                 logged_error b b' \<and> osize (objs b' ! a) = Some new \<and>
                 objs b' = (objs b)[a := (objs b ! a)\<lparr>osize := Some new\<rparr>] \<and>
                 asks b' = asks b \<and> bids b' = bids b \<and>
                 order_id_to_order b' = order_id_to_order b \<and>
                 order_id_to_unreflected_order b' = order_id_to_unreflected_order b"
    using h unfolding u by (simp add: logged_error_def logging_def set_osize_def)
next
  assume n: "n = book_sequence b + 1"
    and h: "is_match m n mk tk SELL p sz \<and> tree_get (asks b) (Some p) = Inr (Some (h # rest)) \<and>
      order_id (objs b ! h) \<noteq> mk"
  let ?b0 = "case order_id_to_order b mk of
               Some mo \<Rightarrow> b
             | None \<Rightarrow> logging b ERROR ''Unable to find maker order for trade''"
  let ?b1 = "match_taker ?b0 sz tk"
  have f: "book_sequence ?b0 = book_sequence b" "asks ?b0 = asks b" "bids ?b0 = bids b"
      "order_id_to_order ?b0 = order_id_to_order b" "objs ?b0 = objs b"
      "order_id_to_unreflected_order ?b0 = order_id_to_unreflected_order b"
    by (simp_all split: option.splits)
  have c: "match b SELL p sz mk tk = Inl (AssertionError, ?b1)"
    using h match_sell_not_head[of b p h rest mk SELL sz tk] by simp
  have u: "update_order_book b m = Inl (AssertionError, ?b1)"
    using h n c by (simp add: update_order_book_match[of m n mk tk SELL p sz b])
  have t: "order_id_to_unreflected_order ?b1 tk = None \<and>
           osize (objs ?b1 ! ta) = Some (tsz - sz)"
    if "order_id_to_unreflected_order b tk = Some ta \<and> ta < length (objs b) \<and>
        osize (objs b ! ta) = Some tsz \<and> tsz \<noteq> 0 \<and> tsz \<le> sz" for ta tsz
    using that match_taker_filled[of ?b0 tk ta tsz sz] unfolding f by simp
  show "\<exists>b'. update_order_book b m = Inl (AssertionError, b') \<and>
                 b' = ?b1 \<and>
                 book_sequence b' = book_sequence b \<and> asks b' = asks b \<and> bids b' = bids b \<and>
                 order_id_to_order b' = order_id_to_order b \<and>
                 (\<forall>ta tsz. order_id_to_unreflected_order b tk = Some ta \<and>
                      ta < length (objs b) \<and> osize (objs b ! ta) = Some tsz \<and>
                      tsz \<noteq> 0 \<and> tsz \<le> sz
                    \<longrightarrow> order_id_to_unreflected_order b' tk = None \<and>
                        osize (objs b' ! ta) = Some (tsz - sz))"
  proof (intro exI[of _ ?b1] conjI allI impI)
    show "update_order_book b m = Inl (AssertionError, ?b1)" by (rule u)
    show "order_id_to_unreflected_order ?b1 tk = None"
      if "order_id_to_unreflected_order b tk = Some ta \<and> ta < length (objs b) \<and>
          osize (objs b ! ta) = Some tsz \<and> tsz \<noteq> 0 \<and> tsz \<le> sz" for ta tsz
      using t[OF that] by (rule conjunct1)
    show "osize (objs ?b1 ! ta) = Some (tsz - sz)"
      if "order_id_to_unreflected_order b tk = Some ta \<and> ta < length (objs b) \<and>
          osize (objs b ! ta) = Some tsz \<and> tsz \<noteq> 0 \<and> tsz \<le> sz" for ta tsz
      using t[OF that] by (rule conjunct2)
  qed (simp_all add: f)
qed


theorem inconsistent_events_witness:
  "(\<exists>b'. update_order_book book_400 done_B_other_price = Inr b' \<and> book_sequence b' = 401 \<and>
         logged_error book_400 b' \<and> order_id_to_order b' (JStr ''B'') = None \<and>
         map_of (bids b') (Some 9) = Some [0] \<and> objs b' = objs book_400) \<and>
   (\<exists>b'. update_order_book book_400 change_A_other_size = Inr b' \<and> book_sequence b' = 401 \<and>
         logged_error book_400 b' \<and> osize (objs b' ! 1) = Some 1 \<and>
         asks b' = asks book_400) \<and>
   (\<exists>b'. update_order_book book_601 match_C_V = Inl (AssertionError, b') \<and>
         book_sequence b' = 601 \<and> asks b' = asks book_601 \<and>
         order_id_to_order b' (JStr ''C'') = Some 1 \<and>
         order_id_to_unreflected_order book_601 (JStr ''V'') = Some 2 \<and>
         order_id_to_unreflected_order b' (JStr ''V'') = None \<and>
         osize (objs b' ! 2) = Some 0)"
proof -
  have n: "401 = book_sequence book_400 + 1" by (simp add: book_400_def)
  have n': "602 = book_sequence book_601 + 1" by (simp add: book_601_def)
  have d: "is_done done_B_other_price 401 (JStr ''B'') BUY (19 / 2) 1 \<and>
      order_id_to_order book_400 (JStr ''B'') = Some 0 \<and>
      price (objs book_400 ! 0) = Some 9 \<and> osize (objs book_400 ! 0) = Some 1 \<and>
      (BUY \<noteq> side (objs book_400 ! 0) \<or> (19 / 2 :: rat) \<noteq> 9) \<and>
      comparable (ladder_of BUY book_400) (Some (19 / 2))"
    by (simp add: is_done_def done_B_other_price_def field_decimal_def field_side_def
          field_time_def decimal_eval time_eval side_of_def book_400_def order_400_def
          comparable_def ladder_of_def)
  have c: "is_change change_A_other_size 401 (JStr ''A'') 9 1 \<and>
      order_id_to_order book_400 (JStr ''A'') = Some 1 \<and> 1 < length (objs book_400) \<and>
      osize (objs book_400 ! 1) \<noteq> Some 9 \<and>
      tree_get (if side (objs book_400 ! 1) = SELL then asks book_400 else bids book_400)
        (price (objs book_400 ! 1)) = Inr (Some (1 # []))"
    by (simp add: is_change_def change_A_other_size_def field_decimal_def field_side_def
          field_time_def decimal_eval time_eval book_400_def order_400_def tree_get_def
          comparable_def)
  have m: "is_match match_C_V 602 (JStr ''C'') (JStr ''V'') SELL 10 2 \<and>
      tree_get (asks book_601) (Some 10) = Inr (Some (0 # [1])) \<and>
      order_id (objs book_601 ! 0) \<noteq> JStr ''C''"
    by (simp add: is_match_def match_C_V_def field_decimal_def field_side_def
          field_time_def decimal_eval time_eval side_of_def book_601_def book_600_def
          order_600_def tree_get_def comparable_def)
  note w1 = inconsistent_events[where n = 401 and b = book_400 and m = done_B_other_price
              and oid = "JStr ''B''" and sd = BUY and p = "19 / 2" and r = 1 and a = 0
              and ?p0.0 = 9 and ?s0.0 = 1, OF n, THEN conjunct1, rule_format, OF d]
  note w2 = inconsistent_events[where n = 401 and b = book_400 and m = change_A_other_size
              and oid = "JStr ''A''" and old = 9 and new = 1 and a = 1 and x = 1 and xs = "[]",
              OF n, THEN conjunct2, THEN conjunct1, rule_format, OF c]
  note w3 = inconsistent_events[where n = 602 and b = book_601 and m = match_C_V
              and mk = "JStr ''C''" and tk = "JStr ''V''" and p = 10
              and sz = 2 and h = 0 and rest = "[1]",
              OF n', THEN conjunct2, THEN conjunct2, rule_format, OF m]
  from w1 obtain b1 where b1: "update_order_book book_400 done_B_other_price = Inr b1"
      "book_sequence b1 = 401" "logged_error book_400 b1"
      "order_id_to_order b1 = (order_id_to_order book_400)(JStr ''B'' := None)"
      "objs b1 = objs book_400"
      "map_of (ladder_of (side (objs book_400 ! 0)) b1) (price (objs book_400 ! 0)) =
         map_of (ladder_of (side (objs book_400 ! 0)) book_400) (price (objs book_400 ! 0))"
    by blast
  have g: "map_of (bids b1) (Some 9) = Some [0]"
    using b1(6) by (simp add: book_400_def order_400_def ladder_of_def)
  have 1: "\<exists>b'. update_order_book book_400 done_B_other_price = Inr b' \<and>
         book_sequence b' = 401 \<and>
         logged_error book_400 b' \<and> order_id_to_order b' (JStr ''B'') = None \<and>
         map_of (bids b') (Some 9) = Some [0] \<and> objs b' = objs book_400"
    using b1(1,2,3,5) g by (intro exI[of _ b1]) (simp add: b1(4))
  from w2 obtain b2 where b2: "update_order_book book_400 change_A_other_size = Inr b2"
      "book_sequence b2 = 401" "logged_error book_400 b2" "osize (objs b2 ! 1) = Some 1"
      "asks b2 = asks book_400"
    by blast
  from w3 obtain b3 where b3: "update_order_book book_601 match_C_V = Inl (AssertionError, b3)"
      "book_sequence b3 = book_sequence book_601" "asks b3 = asks book_601"
      "order_id_to_order b3 = order_id_to_order book_601"
      and t: "\<And>ta tsz. order_id_to_unreflected_order book_601 (JStr ''V'') = Some ta \<and>
                ta < length (objs book_601) \<and> osize (objs book_601 ! ta) = Some tsz \<and>
                tsz \<noteq> 0 \<and> tsz \<le> 2
              \<Longrightarrow> order_id_to_unreflected_order b3 (JStr ''V'') = None \<and>
                  osize (objs b3 ! ta) = Some (tsz - 2)"
    by blast
  have v: "order_id_to_unreflected_order book_601 (JStr ''V'') = Some 2 \<and>
           2 < length (objs book_601) \<and> osize (objs book_601 ! 2) = Some 2 \<and>
           (2 :: rat) \<noteq> 0 \<and> (2 :: rat) \<le> 2"
    by (simp add: book_601_def order_V_def)
  have 3: "\<exists>b'. update_order_book book_601 match_C_V = Inl (AssertionError, b') \<and>
         book_sequence b' = 601 \<and> asks b' = asks book_601 \<and>
         order_id_to_order b' (JStr ''C'') = Some 1 \<and>
         order_id_to_unreflected_order book_601 (JStr ''V'') = Some 2 \<and>
         order_id_to_unreflected_order b' (JStr ''V'') = None \<and>
         osize (objs b' ! 2) = Some 0"
    using b3(1,3) t[OF v] v
    by (intro exI[of _ b3]) (simp add: b3(2,4) book_601_def book_600_def)
  show ?thesis using 1 b2 3 by blast
qed

text \<open>
  The claim as stated fails for the match. In \<open>book_601\<close> the asks queue at 10.00 is
  \<open>A\<close>, \<open>C\<close>, both resting and known to the book, and \<open>V\<close> is pending. The match of \<open>V\<close>
  against \<open>C\<close>, which is not the head, raises AssertionError: the sequence stays at
  601, and the book is left in the middle of the update, \<open>V\<close> no longer pending and the
  asks as they were.
\<close>

theorem match_maker_not_head_aborts:
  "on_order_book_snapshot (OrderBook ETH) (Some snapshot_600) = Inr book_600 \<and>
   on_message book_600 received_V = Inr book_601 \<and>
   order_id_to_order book_601 (JStr ''C'') = Some 1 \<and>
   map_of (asks book_601) (Some 10) = Some [0, 1] \<and>
   order_id_to_unreflected_order book_601 (JStr ''V'') = Some 2 \<and>
   on_message book_601 match_C_V = Inl (AssertionError, book_601_aborted) \<and>
   book_sequence book_601_aborted = 601 \<and>
   asks book_601_aborted = asks book_601 \<and>
   order_id_to_unreflected_order book_601_aborted (JStr ''V'') = None"
  using snapshot_600_applied received_V_applied match_C_V_aborts
  by (simp add: book_600_def book_601_def book_601_aborted_def)

text \<open>
  The buy side is not part of the statement above. For a match whose side is \<open>buy\<close> the
  code does not read the bids at all: the comparison \<open>side == 'buy'\<close> is false for every
  \<open>Side\<close>, so the asks queue at the match price is read instead. With no ask
  at that price the event returns after the taker's part, whatever the bids queue holds
  and whoever its head is, and the sequence advances.
\<close>

lemma buy_match_skips_bids:
  assumes "n = book_sequence b + 1" "is_match m n mk tk BUY p sz"
    and "tree_get (asks b) (Some p) = Inr None \<or> tree_get (asks b) (Some p) = Inr (Some [])"
  shows "update_order_book b m =
           Inr ((match_taker
                   (case order_id_to_order b mk of
                      Some mo \<Rightarrow> b
                    | None \<Rightarrow> logging b ERROR ''Unable to find maker order for trade'')
                   sz tk)\<lparr>book_sequence := n\<rparr>)"
  using assms(1,2) match_no_asks_level[of b p BUY sz mk tk, OF assms(3)]
  by (simp add: update_order_book_match[of m n mk tk BUY p sz b])

end
